theory Spec2Isabelle
  imports Complex_Main "HOL-Library.Multiset"
begin

section \<open>JavaScript values held by a sensor document\<close>

text \<open>
  The dashboard (src/src/App.jsx) reads sensor documents from a document store. A numeric
  field of such a document is absent (\<open>undefined\<close>), \<open>null\<close>, \<open>NaN\<close> or a finite number; a
  text field is absent, \<open>null\<close> or a string. Finite numbers are modelled by the reals, so
  every arithmetic operation of the source is read as the exact operation: the rounding
  error of IEEE doubles (and the infinities) are outside this model.
\<close>

datatype jsnum = Undefined | Null | NaN | Num real

datatype jsstr = NoStr | NullStr | Str string

text \<open>Truthiness, as the \<open>||\<close> of the source tests it: \<open>0\<close>, \<open>NaN\<close>, \<open>""\<close>, \<open>null\<close> and
  \<open>undefined\<close> are falsy.\<close>

fun truthy_num :: "jsnum \<Rightarrow> bool" where
  "truthy_num (Num x) = (x \<noteq> 0)"
| "truthy_num Undefined = False"
| "truthy_num Null = False"
| "truthy_num NaN = False"

fun truthy_str :: "jsstr \<Rightarrow> bool" where
  "truthy_str (Str s) = (s \<noteq> [])"
| "truthy_str NoStr = False"
| "truthy_str NullStr = False"

text \<open>\<open>v || d\<close> with a numeric, respectively a string, literal \<open>d\<close>.\<close>

definition or_num :: "jsnum \<Rightarrow> real \<Rightarrow> jsnum" where
  "or_num v d = (if truthy_num v then v else Num d)"

definition or_str :: "jsstr \<Rightarrow> string \<Rightarrow> jsstr" where
  "or_str v d = (if truthy_str v then v else Str d)"

text \<open>\<open>ToNumber\<close>: \<open>None\<close> stands for \<open>NaN\<close>; \<open>null\<close> converts to \<open>0\<close>.\<close>

fun to_number :: "jsnum \<Rightarrow> real option" where
  "to_number (Num x) = Some x"
| "to_number Null = Some 0"
| "to_number Undefined = None"
| "to_number NaN = None"

text \<open>\<open>Math.round\<close>: the nearest integer, a tie going up.\<close>

definition Math_round :: "real \<Rightarrow> int" where
  "Math_round x = \<lfloor>x + 1 / 2\<rfloor>"

section \<open>The AQI calculator\<close>

text \<open>
  \<open>calculateAQI\<close> (App.jsx, lines 128-147). Only \<open>pm25\<close> is read. When \<open>pm25\<close> converts to
  \<open>NaN\<close> every comparison is false, the last branch computes \<open>NaN\<close> and
  \<open>Math.min(NaN, 500)\<close> is \<open>NaN\<close>: the result \<open>None\<close>.
\<close>

definition calculateAQI :: "jsnum \<Rightarrow> jsnum \<Rightarrow> jsnum \<Rightarrow> int option" where
  "calculateAQI pm1 pm25 pm10 =
     (case to_number pm25 of
        None \<Rightarrow> None
      | Some x \<Rightarrow>
          (let aqi =
             (if x \<le> 12 then Math_round ((50 / 12) * x)
              else if x \<le> 35.4 then
                Math_round (51 + ((100 - 51) / (35.4 - 12.1)) * (x - 12.1))
              else if x \<le> 55.4 then
                Math_round (101 + ((150 - 101) / (55.4 - 35.5)) * (x - 35.5))
              else if x \<le> 150.4 then
                Math_round (151 + ((200 - 151) / (150.4 - 55.5)) * (x - 55.5))
              else if x \<le> 250.4 then
                Math_round (201 + ((300 - 201) / (250.4 - 150.5)) * (x - 150.5))
              else
                Math_round (301 + ((500 - 301) / (500 - 250.5)) * (x - 250.5)))
           in Some (min aqi 500)))"

text \<open>The breakpoint table of the specification (section 4.2), written from its words.\<close>

definition spec_calculateAQI :: "real \<Rightarrow> int" where
  "spec_calculateAQI x =
     min (if x \<le> 12 then Math_round ((50 / 12) * x)
          else if x \<le> 35.4 then Math_round (51 + (49 / 23.3) * (x - 12.1))
          else if x \<le> 55.4 then Math_round (101 + (49 / 19.9) * (x - 35.5))
          else if x \<le> 150.4 then Math_round (151 + (49 / 94.9) * (x - 55.5))
          else if x \<le> 250.4 then Math_round (201 + (99 / 99.9) * (x - 150.5))
          else Math_round (301 + (199 / 249.5) * (x - 250.5)))
         500"

text \<open>The value that is rounded, as one function of the concentration (used in proofs).\<close>

definition aqi_line :: "real \<Rightarrow> real" where
  "aqi_line x =
     (if x \<le> 12 then (50 / 12) * x
      else if x \<le> 35.4 then 51 + (49 / 23.3) * (x - 12.1)
      else if x \<le> 55.4 then 101 + (49 / 19.9) * (x - 35.5)
      else if x \<le> 150.4 then 151 + (49 / 94.9) * (x - 55.5)
      else if x \<le> 250.4 then 201 + (99 / 99.9) * (x - 150.5)
      else 301 + (199 / 249.5) * (x - 250.5))"

text \<open>\<open>getAQIStatus\<close>, \<open>getAQIRange\<close> and \<open>getAQIRangeClass\<close> (App.jsx, lines 149-176).\<close>

record aqi_status =
  status :: string
  advice :: string

definition getAQIStatus :: "int \<Rightarrow> aqi_status" where
  "getAQIStatus aqi =
     (if aqi \<le> 50 then \<lparr>status = ''Good'', advice = ''Enjoy outdoor activities freely.''\<rparr>
      else if aqi \<le> 100 then
        \<lparr>status = ''Moderate'',
         advice = ''Sensitive groups should limit prolonged outdoor exertion.''\<rparr>
      else if aqi \<le> 150 then
        \<lparr>status = ''Unhealthy for Sensitive Groups'',
         advice = ''Sensitive individuals should reduce outdoor activity.''\<rparr>
      else if aqi \<le> 200 then
        \<lparr>status = ''Unhealthy'',
         advice = ''Everyone should limit prolonged outdoor exertion.''\<rparr>
      else if aqi \<le> 250 then
        \<lparr>status = ''Very Unhealthy'',
         advice = ''Avoid outdoor activities; wear masks if going outside.''\<rparr>
      else if aqi \<le> 300 then
        \<lparr>status = ''Severe'',
         advice = ''Stay indoors; use air purifiers and avoid any outdoor exposure.''\<rparr>
      else
        \<lparr>status = ''Hazardous'',
         advice = ''Remain indoors with sealed windows and avoid all outdoor activities.''\<rparr>)"

definition getAQIRange :: "int \<Rightarrow> string" where
  "getAQIRange aqi =
     (if aqi \<le> 50 then ''AQI (0-50)''
      else if aqi \<le> 100 then ''AQI (51-100)''
      else if aqi \<le> 150 then ''AQI (101-150)''
      else if aqi \<le> 200 then ''AQI (151-200)''
      else if aqi \<le> 250 then ''AQI (201-250)''
      else if aqi \<le> 300 then ''AQI (251-300)''
      else ''AQI (301-500)'')"

definition getAQIRangeClass :: "int \<Rightarrow> string" where
  "getAQIRangeClass aqi =
     (if aqi \<le> 50 then ''good''
      else if aqi \<le> 100 then ''moderate''
      else if aqi \<le> 150 then ''unhealthy-sensitive''
      else if aqi \<le> 200 then ''unhealthy''
      else if aqi \<le> 250 then ''very-unhealthy''
      else ''hazardous'')"

text \<open>
  The seven categories of the specification's data model, and the category that each
  status text, range label and class tag stands for.
\<close>

datatype category =
  Good | Moderate | UnhealthyForSensitiveGroups | Unhealthy | VeryUnhealthy | Severe | Hazardous

definition category_of_status :: "string \<Rightarrow> category option" where
  "category_of_status s =
     (if s = ''Good'' then Some Good
      else if s = ''Moderate'' then Some Moderate
      else if s = ''Unhealthy for Sensitive Groups'' then Some UnhealthyForSensitiveGroups
      else if s = ''Unhealthy'' then Some Unhealthy
      else if s = ''Very Unhealthy'' then Some VeryUnhealthy
      else if s = ''Severe'' then Some Severe
      else if s = ''Hazardous'' then Some Hazardous
      else None)"

definition category_of_range :: "string \<Rightarrow> category option" where
  "category_of_range s =
     (if s = ''AQI (0-50)'' then Some Good
      else if s = ''AQI (51-100)'' then Some Moderate
      else if s = ''AQI (101-150)'' then Some UnhealthyForSensitiveGroups
      else if s = ''AQI (151-200)'' then Some Unhealthy
      else if s = ''AQI (201-250)'' then Some VeryUnhealthy
      else if s = ''AQI (251-300)'' then Some Severe
      else if s = ''AQI (301-500)'' then Some Hazardous
      else None)"

definition category_of_class :: "string \<Rightarrow> category option" where
  "category_of_class s =
     (if s = ''good'' then Some Good
      else if s = ''moderate'' then Some Moderate
      else if s = ''unhealthy-sensitive'' then Some UnhealthyForSensitiveGroups
      else if s = ''unhealthy'' then Some Unhealthy
      else if s = ''very-unhealthy'' then Some VeryUnhealthy
      else if s = ''severe'' then Some Severe
      else if s = ''hazardous'' then Some Hazardous
      else None)"

text \<open>The category of an index by the breakpoints 50/100/150/200/250/300.\<close>

definition category_of_aqi :: "int \<Rightarrow> category" where
  "category_of_aqi aqi =
     (if aqi \<le> 50 then Good
      else if aqi \<le> 100 then Moderate
      else if aqi \<le> 150 then UnhealthyForSensitiveGroups
      else if aqi \<le> 200 then Unhealthy
      else if aqi \<le> 250 then VeryUnhealthy
      else if aqi \<le> 300 then Severe
      else Hazardous)"

section \<open>The AQI calculator in double arithmetic\<close>









section \<open>Timestamps and the platform\<close>

text \<open>
  The \<open>timestamp\<close> of a document is absent, \<open>null\<close>, an object (for the store's own
  timestamps: an object with a \<open>seconds\<close> property), a string, a number, \<open>NaN\<close>, or a
  native \<open>Date\<close>. A \<open>Date\<close> is its time value: whole milliseconds since the epoch, or
  \<open>None\<close> for an invalid date. \<open>TsObject secs prim\<close> is an object whose \<open>seconds\<close> property
  is \<open>secs\<close> and whose conversion to a primitive is the string \<open>prim\<close>.
\<close>

datatype js_timestamp =
    TsUndefined
  | TsNull
  | TsObject jsnum string
  | TsString string
  | TsNumber real
  | TsNaN
  | TsDate "int option"

text \<open>
  Two built-ins of the platform are parameters of the model: the date parser behind
  \<open>new Date(string)\<close>, and \<open>getFullYear\<close>, the calendar year of a time value in the local
  time zone.
\<close>

record platform =
  parseDate :: "string \<Rightarrow> int option"
  getFullYear :: "int \<Rightarrow> int"

text \<open>\<open>TimeClip\<close>, applied by \<open>new Date(number)\<close>: beyond 8.64e15 ms the date is invalid;
  otherwise the fraction is dropped.\<close>

definition TimeClip :: "real \<Rightarrow> int option" where
  "TimeClip x =
     (if \<bar>x\<bar> > 8640000000000000 then None
      else Some (if 0 \<le> x then \<lfloor>x\<rfloor> else \<lceil>x\<rceil>))"

fun truthy_ts :: "js_timestamp \<Rightarrow> bool" where
  "truthy_ts TsUndefined = False"
| "truthy_ts TsNull = False"
| "truthy_ts (TsObject secs prim) = True"
| "truthy_ts (TsString s) = (s \<noteq> [])"
| "truthy_ts (TsNumber x) = (x \<noteq> 0)"
| "truthy_ts TsNaN = False"
| "truthy_ts (TsDate d) = True"

text \<open>
  The \<open>date\<close> that \<open>validateTimestamp\<close> builds (App.jsx, lines 33-46): from
  \<open>seconds * 1000\<close> when the value is an object with a truthy \<open>seconds\<close>, and from the value
  itself otherwise (\<open>new Date\<close> parses a string, clips a number, copies a date, and
  parses the primitive of any other object).
\<close>

fun resolved_date :: "platform \<Rightarrow> js_timestamp \<Rightarrow> int option" where
  "resolved_date pf (TsObject secs prim) =
     (if truthy_num secs then
        (case to_number secs of Some s \<Rightarrow> TimeClip (s * 1000) | None \<Rightarrow> None)
      else parseDate pf prim)"
| "resolved_date pf (TsString s) = parseDate pf s"
| "resolved_date pf (TsNumber x) = TimeClip x"
| "resolved_date pf TsNaN = None"
| "resolved_date pf (TsDate d) = d"
| "resolved_date pf TsUndefined = None"
| "resolved_date pf TsNull = Some 0"

text \<open>\<open>validateTimestamp\<close> (App.jsx, lines 30-53); \<open>None\<close> is the source's \<open>null\<close>.\<close>

definition validateTimestamp :: "platform \<Rightarrow> js_timestamp \<Rightarrow> int option" where
  "validateTimestamp pf ts =
     (if \<not> truthy_ts ts then None
      else (case resolved_date pf ts of
              None \<Rightarrow> None
            | Some t \<Rightarrow> if getFullYear pf t < 2025 then None else Some t))"

section \<open>Readings\<close>

text \<open>
  \<open>sensor_data\<close> is the data of a stored document, \<open>reading\<close> the object that the
  dashboard builds from it. \<open>validTimestamp\<close> holds a date (\<open>None\<close>: \<open>null\<close> or absent),
  \<open>aqi\<close> the result of \<open>calculateAQI\<close>, \<open>docId\<close> the document's id (absent in the
  fallback reading).
\<close>

record located =
  latitude :: jsnum
  longitude :: jsnum

record sensor_data = located +
  temperature :: jsnum
  humidity :: jsnum
  voc :: jsnum
  pm25 :: jsnum
  pm10 :: jsnum
  pm1 :: jsnum
  rainfall :: jsnum
  windSpeed :: jsnum
  windDirection :: jsstr
  co2 :: jsnum
  deviceId :: jsstr
  timestamp :: js_timestamp

record reading = sensor_data +
  docId :: "string option"
  validTimestamp :: "int option"
  aqi :: "int option"

section \<open>Sorting by recency\<close>

text \<open>
  \<open>Array.prototype.sort\<close> with a comparator is a stable sort; it is modelled by a stable
  insertion sort, which gives the same list for a consistent comparator.
\<close>

fun insert_sorted :: "('a \<Rightarrow> 'a \<Rightarrow> int) \<Rightarrow> 'a \<Rightarrow> 'a list \<Rightarrow> 'a list" where
  "insert_sorted cmp x [] = [x]"
| "insert_sorted cmp x (y # ys) =
     (if cmp x y \<le> 0 then x # y # ys else y # insert_sorted cmp x ys)"

fun js_sort :: "('a \<Rightarrow> 'a \<Rightarrow> int) \<Rightarrow> 'a list \<Rightarrow> 'a list" where
  "js_sort cmp [] = []"
| "js_sort cmp (x # xs) = insert_sorted cmp x (js_sort cmp xs)"

text \<open>
  \<open>validTimestamp.getTime()\<close>. The source calls it only on readings that passed the
  validator, whose \<open>validTimestamp\<close> is a valid date; the value 0 for \<open>None\<close> is never used
  there (lemma \<open>filterValidReadings_member\<close> below).
\<close>

definition getTime :: "reading \<Rightarrow> int" where
  "getTime r = (case validTimestamp r of Some t \<Rightarrow> t | None \<Rightarrow> 0)"

text \<open>The comparator \<open>(a, b) => b.validTimestamp.getTime() - a.validTimestamp.getTime()\<close>.\<close>

definition by_recency :: "reading \<Rightarrow> reading \<Rightarrow> int" where
  "by_recency a b = getTime b - getTime a"

text \<open>\<open>filterValidReadings\<close> (App.jsx, lines 56-64): filter, map, sort.\<close>

definition filterValidReadings :: "platform \<Rightarrow> reading list \<Rightarrow> reading list" where
  "filterValidReadings pf rs =
     js_sort by_recency
       (map (\<lambda>r. r\<lparr>validTimestamp := validateTimestamp pf (timestamp r)\<rparr>)
          (filter (\<lambda>r. validateTimestamp pf (timestamp r) \<noteq> None) rs))"

section \<open>The proximity grouper\<close>

text \<open>\<open>Math.atan2(y, x)\<close> on finite numbers.\<close>

definition Math_atan2 :: "real \<Rightarrow> real \<Rightarrow> real" where
  "Math_atan2 y x =
     (if 0 < x then arctan (y / x)
      else if x < 0 then (if 0 \<le> y then arctan (y / x) + pi else arctan (y / x) - pi)
      else if 0 < y then pi / 2
      else if y < 0 then - (pi / 2)
      else 0)"

text \<open>The body of \<open>calculateDistance\<close> (App.jsx, lines 67-80) on finite numbers.\<close>

definition haversine :: "real \<Rightarrow> real \<Rightarrow> real \<Rightarrow> real \<Rightarrow> real" where
  "haversine lat1 lon1 lat2 lon2 =
     (let R = 6371000;
          phi1 = lat1 * pi / 180;
          phi2 = lat2 * pi / 180;
          dphi = (lat2 - lat1) * pi / 180;
          dlam = (lon2 - lon1) * pi / 180;
          a = sin (dphi / 2) * sin (dphi / 2) +
              cos phi1 * cos phi2 * sin (dlam / 2) * sin (dlam / 2);
          c = 2 * Math_atan2 (sqrt a) (sqrt (1 - a))
      in R * c)"

text \<open>\<open>calculateDistance\<close> on document fields: an argument that converts to \<open>NaN\<close> makes
  the result \<open>NaN\<close> (\<open>None\<close>).\<close>

definition calculateDistance :: "jsnum \<Rightarrow> jsnum \<Rightarrow> jsnum \<Rightarrow> jsnum \<Rightarrow> real option" where
  "calculateDistance lat1 lon1 lat2 lon2 =
     (case (to_number lat1, to_number lon1, to_number lat2, to_number lon2) of
        (Some a1, Some o1, Some a2, Some o2) \<Rightarrow> Some (haversine a1 o1 a2 o2)
      | _ \<Rightarrow> None)"

record location_group = located +
  readings :: "reading list"

text \<open>The test \<open>distance <= 5\<close>; it is false on \<open>NaN\<close>.\<close>

definition within_threshold :: "reading \<Rightarrow> location_group \<Rightarrow> bool" where
  "within_threshold r g =
     (case calculateDistance (latitude r) (longitude r) (latitude g) (longitude g) of
        Some d \<Rightarrow> d \<le> 5
      | None \<Rightarrow> False)"

text \<open>The inner loop over the groups, leaving at the first group within the threshold;
  \<open>None\<close> when \<open>foundGroup\<close> stays false.\<close>

fun push_to_first_group :: "reading \<Rightarrow> location_group list \<Rightarrow> location_group list option" where
  "push_to_first_group r [] = None"
| "push_to_first_group r (g # gs) =
     (if within_threshold r g then Some (g\<lparr>readings := readings g @ [r]\<rparr> # gs)
      else map_option ((#) g) (push_to_first_group r gs))"

text \<open>The body of the \<open>forEach\<close> (App.jsx, lines 89-112).\<close>

definition place_reading :: "location_group list \<Rightarrow> reading \<Rightarrow> location_group list" where
  "place_reading groups r =
     (case push_to_first_group r groups of
        Some groups' \<Rightarrow> groups'
      | None \<Rightarrow>
          groups @ [\<lparr>latitude = latitude r, longitude = longitude r, readings = [r]\<rparr>])"

definition all_groups :: "reading list \<Rightarrow> location_group list" where
  "all_groups rs = foldl place_reading [] rs"

text \<open>\<open>groupLocationsByProximity\<close> (App.jsx, lines 83-115).\<close>

definition groupLocationsByProximity :: "platform \<Rightarrow> reading list \<Rightarrow> location_group list" where
  "groupLocationsByProximity pf rs = take 5 (all_groups (filterValidReadings pf rs))"

section \<open>The dashboard state\<close>

record dashboard =
  currentData :: "reading option"
  historyData :: "reading list"
  isHistoryExpanded :: bool
  loading :: bool
  locationGroups :: "location_group list"
  selectedLocationGroup :: "location_group option"
  locationHistoryData :: "reading list"

text \<open>The state on mount: the initial values of the \<open>useState\<close> hooks.\<close>

definition initial_dashboard :: dashboard where
  "initial_dashboard =
     \<lparr>currentData = None, historyData = [], isHistoryExpanded = False, loading = True,
      locationGroups = [], selectedLocationGroup = None, locationHistoryData = []\<rparr>"

record document =
  doc_id :: string
  doc_data :: sensor_data

text \<open>The reading built from a document whose timestamp validates (App.jsx, lines
  211-229 and 314-332).\<close>

definition makeReading :: "string \<Rightarrow> sensor_data \<Rightarrow> int \<Rightarrow> reading" where
  "makeReading i data validDate =
     \<lparr>latitude = or_num (latitude data) 6.791164,
      longitude = or_num (longitude data) 79.900497,
      temperature = or_num (temperature data) 0,
      humidity = or_num (humidity data) 0,
      voc = or_num (voc data) 0,
      pm25 = or_num (pm25 data) 0,
      pm10 = or_num (pm10 data) 0,
      pm1 = or_num (pm1 data) 0,
      rainfall = or_num (rainfall data) 0,
      windSpeed = or_num (windSpeed data) 0,
      windDirection = or_str (windDirection data) ''N'',
      co2 = or_num (co2 data) 0,
      deviceId = or_str (deviceId data) [],
      timestamp = timestamp data,
      docId = Some i,
      validTimestamp = Some validDate,
      aqi = calculateAQI (or_num (pm1 data) 0) (or_num (pm25 data) 0) (or_num (pm10 data) 0)\<rparr>"

text \<open>The loop over a snapshot: documents whose timestamp does not validate are skipped.\<close>

fun valid_readings :: "platform \<Rightarrow> document list \<Rightarrow> reading list" where
  "valid_readings pf [] = []"
| "valid_readings pf (d # ds) =
     (case validateTimestamp pf (timestamp (doc_data d)) of
        None \<Rightarrow> valid_readings pf ds
      | Some validDate \<Rightarrow> makeReading (doc_id d) (doc_data d) validDate # valid_readings pf ds)"

text \<open>The fallback reading (App.jsx, lines 248-265 and 274-291); \<open>isoNow\<close> is the ISO text of
  the clock and \<open>now\<close> its time value.\<close>

definition fallbackReading :: "string \<Rightarrow> int \<Rightarrow> reading" where
  "fallbackReading isoNow now =
     \<lparr>latitude = Num 6.791164,
      longitude = Num 79.900497,
      temperature = Num 30,
      humidity = Num 80,
      voc = Num 140,
      pm25 = Num 40,
      pm10 = Num 0,
      pm1 = Num 0,
      rainfall = Num 0,
      windSpeed = Num 0,
      windDirection = Str ''N'',
      co2 = Num 0,
      deviceId = Str [],
      timestamp = TsString isoNow,
      docId = None,
      validTimestamp = Some now,
      aqi = calculateAQI (Num 0) (Num 40) (Num 0)\<rparr>"

text \<open>\<open>xs.slice(b, e)\<close> for \<open>0 \<le> b \<le> e\<close>.\<close>

definition slice :: "nat \<Rightarrow> nat \<Rightarrow> 'a list \<Rightarrow> 'a list" where
  "slice b e xs = take (e - b) (drop b xs)"

text \<open>
  \<open>fetchData\<close> (App.jsx, lines 189-295). The store's answer is \<open>None\<close> when the read throws
  and the list of documents otherwise; \<open>isoNow\<close> and \<open>now\<close> are the clock readings used by the
  fallback. The result is the state after all the setters of the path have run.
\<close>

definition fetchData ::
  "platform \<Rightarrow> string \<Rightarrow> int \<Rightarrow> document list option \<Rightarrow> dashboard \<Rightarrow> dashboard" where
  "fetchData pf isoNow now answer st =
     (case answer of
        None \<Rightarrow> st\<lparr>currentData := Some (fallbackReading isoNow now), loading := False\<rparr>
      | Some docs \<Rightarrow>
          (let allReadings = js_sort by_recency (valid_readings pf docs);
               st1 = st\<lparr>locationGroups := groupLocationsByProximity pf allReadings\<rparr>;
               st2 = (case allReadings of
                        r # _ \<Rightarrow> st1\<lparr>currentData := Some r\<rparr>
                      | [] \<Rightarrow> st1\<lparr>currentData := Some (fallbackReading isoNow now)\<rparr>);
               st3 = st2\<lparr>historyData := slice 1 6 allReadings\<rparr>
           in st3\<lparr>loading := False\<rparr>))"

text \<open>The callback of the live subscription (App.jsx, lines 306-343).\<close>

definition onSnapshotUpdate :: "platform \<Rightarrow> document list \<Rightarrow> dashboard \<Rightarrow> dashboard" where
  "onSnapshotUpdate pf docs st =
     (let validReadings = js_sort by_recency (valid_readings pf docs)
      in (case validReadings of
            r # _ \<Rightarrow> st\<lparr>currentData := Some r\<rparr>
          | [] \<Rightarrow> st))"

section \<open>A sample platform\<close>

text \<open>
  A platform whose local time zone is UTC, for evaluating the model on concrete inputs:
  the year is computed from the days since the epoch in the proleptic Gregorian calendar,
  and the parser knows the date-only form \<open>YYYY-MM-DD\<close> of two sample days.
\<close>

definition utc_year :: "int \<Rightarrow> int" where
  "utc_year t =
     (let z = t div 86400000 + 719468;
          era = z div 146097;
          doe = z - era * 146097;
          yoe = (doe - doe div 1460 + doe div 36524 - doe div 146096) div 365;
          doy = doe - (365 * yoe + yoe div 4 - yoe div 100);
          mp = (5 * doy + 2) div 153
      in yoe + era * 400 + (if mp < 10 then 0 else 1))"

definition sample_parse :: "string \<Rightarrow> int option" where
  "sample_parse s =
     (if s = ''2024-12-31'' then Some 1735603200000
      else if s = ''2025-06-15'' then Some 1749945600000
      else None)"

definition utc_platform :: platform where
  "utc_platform = \<lparr>parseDate = sample_parse, getFullYear = utc_year\<rparr>"

text \<open>A sample reading with a given timestamp and position, and a sample document.\<close>

definition sample_data :: "js_timestamp \<Rightarrow> jsnum \<Rightarrow> jsnum \<Rightarrow> sensor_data" where
  "sample_data ts lat lon =
     \<lparr>latitude = lat, longitude = lon, temperature = Num 29, humidity = Num 70,
      voc = Num 120, pm25 = Num 12, pm10 = Num 20, pm1 = Num 5, rainfall = Undefined,
      windSpeed = Num 3, windDirection = Str ''NE'', co2 = Num 410, deviceId = Str ''dev-1'',
      timestamp = ts\<rparr>"

definition sample_reading :: "js_timestamp \<Rightarrow> jsnum \<Rightarrow> jsnum \<Rightarrow> reading" where
  "sample_reading ts lat lon =
     sensor_data.extend (sample_data ts lat lon)
       (reading.fields None None (Some 50))"

definition sample_batch :: "reading list" where
  "sample_batch =
     [sample_reading (TsString ''2024-12-31'') (Num 6.791164) (Num 79.900497),
      sample_reading (TsObject (Num 1750000000) []) (Num 6.791164) (Num 79.900497),
      sample_reading TsUndefined (Num 6.791164) (Num 79.900497),
      sample_reading (TsNumber 1760000000000) (Num 6.8) (Num 79.9)]"

text \<open>A document with most fields missing or falsy, and the same data as a reading.\<close>

definition sparse_data :: sensor_data where
  "sparse_data =
     \<lparr>latitude = Undefined, longitude = Num 0, temperature = Null, humidity = NaN,
      voc = Undefined, pm25 = Num 40, pm10 = Undefined, pm1 = Undefined,
      rainfall = Undefined, windSpeed = Undefined, windDirection = NoStr, co2 = Undefined,
      deviceId = NullStr, timestamp = TsNumber 1760000000000\<rparr>"

definition sparse_reading :: reading where
  "sparse_reading = sensor_data.extend sparse_data (reading.fields None None None)"

text \<open>A sample snapshot: one document of 2024 and two of 2025.\<close>

definition sample_docs :: "document list" where
  "sample_docs =
     [\<lparr>doc_id = ''a0'', doc_data = sample_data (TsString ''2024-12-31'') (Num 6.79) (Num 79.9)\<rparr>,
      \<lparr>doc_id = ''a1'', doc_data = sample_data (TsObject (Num 1750000000) []) (Num 6.79) (Num 79.9)\<rparr>,
      \<lparr>doc_id = ''a2'', doc_data = sample_data (TsNumber 1760000000000) (Num 6.8) (Num 79.9)\<rparr>]"

section \<open>Notions used in the statements and proofs about grouping\<close>

text \<open>The value \<open>a\<close> of \<open>calculateDistance\<close>: the haversine of the central angle.\<close>

definition hav :: "real \<Rightarrow> real \<Rightarrow> real \<Rightarrow> real \<Rightarrow> real" where
  "hav lat1 lon1 lat2 lon2 =
     sin ((lat2 - lat1) * pi / 180 / 2) * sin ((lat2 - lat1) * pi / 180 / 2) +
     cos (lat1 * pi / 180) * cos (lat2 * pi / 180) *
       sin ((lon2 - lon1) * pi / 180 / 2) * sin ((lon2 - lon1) * pi / 180 / 2)"

text \<open>The unit vector of a position given in degrees.\<close>

definition ux :: "real \<Rightarrow> real \<Rightarrow> real" where
  "ux la lo = cos (la * pi / 180) * cos (lo * pi / 180)"

definition uy :: "real \<Rightarrow> real \<Rightarrow> real" where
  "uy la lo = cos (la * pi / 180) * sin (lo * pi / 180)"

definition uz :: "real \<Rightarrow> real \<Rightarrow> real" where
  "uz la lo = sin (la * pi / 180)"

text \<open>The group that a reading founds, and the coordinate pair of a reading or group.\<close>

definition group_of :: "reading \<Rightarrow> location_group" where
  "group_of r = \<lparr>latitude = latitude r, longitude = longitude r, readings = [r]\<rparr>"

definition anchor :: "'a located_scheme \<Rightarrow> jsnum \<times> jsnum" where
  "anchor g = (latitude g, longitude g)"

text \<open>\<open>distance <= 5\<close> and \<open>distance > 5\<close> between two coordinate pairs; both are false
  when the distance is \<open>NaN\<close>.\<close>

definition within5 :: "jsnum \<times> jsnum \<Rightarrow> jsnum \<times> jsnum \<Rightarrow> bool" where
  "within5 p q =
     (case calculateDistance (fst p) (snd p) (fst q) (snd q) of
        Some d \<Rightarrow> d \<le> 5
      | None \<Rightarrow> False)"

definition beyond5 :: "jsnum \<times> jsnum \<Rightarrow> jsnum \<times> jsnum \<Rightarrow> bool" where
  "beyond5 p q =
     (case calculateDistance (fst p) (snd p) (fst q) (snd q) of
        Some d \<Rightarrow> 5 < d
      | None \<Rightarrow> False)"

definition numeric :: "jsnum \<times> jsnum \<Rightarrow> bool" where
  "numeric p = (to_number (fst p) \<noteq> None \<and> to_number (snd p) \<noteq> None)"

text \<open>Invariants of the grouping loop: anchors are numbers and pairwise more than 5 m
  apart; every reading of a group is the founding one or within 5 m of the anchor.\<close>

definition apart_inv :: "(jsnum \<times> jsnum) list \<Rightarrow> bool" where
  "apart_inv ps = (sorted_wrt (\<lambda>p q. beyond5 q p) ps \<and> (\<forall>p \<in> set ps. numeric p))"

definition near_anchor :: "location_group \<Rightarrow> bool" where
  "near_anchor g =
     (\<forall>r \<in> set (readings g). anchor r = anchor g \<or> within5 (anchor r) (anchor g))"

text \<open>A reading with its validated time attached, as \<open>filterValidReadings\<close> does.\<close>

definition stamp :: "platform \<Rightarrow> reading \<Rightarrow> reading" where
  "stamp pf r = r\<lparr>validTimestamp := validateTimestamp pf (timestamp r)\<rparr>"

text \<open>Whether the distance of two readings is a number below \<open>m\<close> metres.\<close>

definition distance_below :: "real \<Rightarrow> reading \<Rightarrow> reading \<Rightarrow> bool" where
  "distance_below m a b =
     (case calculateDistance (latitude a) (longitude a) (latitude b) (longitude b) of
        Some d \<Rightarrow> d < m
      | None \<Rightarrow> False)"

text \<open>Sample readings on the meridian 79.9: seven that are more than 10 km apart, and
  three within a few metres (B is about 5.6 m north of A, C lies between them, about
  2.8 m from each).\<close>

definition meridian_reading :: "real \<Rightarrow> real \<Rightarrow> reading" where
  "meridian_reading lat ms = sample_reading (TsNumber ms) (Num lat) (Num 79.9)"

definition seven_scattered :: "reading list" where
  "seven_scattered =
     [meridian_reading 6.7 1760000007000, meridian_reading 6.6 1760000006000,
      meridian_reading 6.5 1760000005000, meridian_reading 6.4 1760000004000,
      meridian_reading 6.3 1760000003000, meridian_reading 6.2 1760000002000,
      meridian_reading 6.1 1760000001000]"

definition near_A :: reading where "near_A = meridian_reading 6.79 1760000003000"

definition near_B :: reading where "near_B = meridian_reading 6.79005 1760000002000"

definition near_C :: reading where "near_C = meridian_reading 6.790025 1760000001000"

definition three_near :: "reading list" where
  "three_near = [near_A, near_B, near_C]"

definition two_near :: "reading list" where
  "two_near = [near_A, near_C]"

text \<open>Two readings whose latitude is missing.\<close>

definition unlocated_pair :: "reading list" where
  "unlocated_pair =
     [sample_reading (TsNumber 1760000002000) Undefined (Num 79.9),
      sample_reading (TsNumber 1760000001000) Undefined (Num 79.9)]"

section \<open>Properties of the AQI calculator\<close>

lemma calculateAQI_line:
  "calculateAQI p1 (Num x) p10 = Some (min (Math_round (aqi_line x)) 500)"
  by (simp add: calculateAQI_def aqi_line_def Let_def)

lemma spec_calculateAQI_line: "spec_calculateAQI x = min (Math_round (aqi_line x)) 500"
  by (simp add: spec_calculateAQI_def aqi_line_def)



text \<open>
  Claim C1 (as amended). For every integer index, \<open>getAQIStatus\<close> and \<open>getAQIRange\<close> give
  the same one of the seven categories, the one fixed by the breakpoints
  50/100/150/200/250/300. \<open>getAQIRangeClass\<close> has six tags: it agrees with the other two up
  to 250 and above 300, and gives the tag of Hazardous for every index above 250, so also
  on the Severe band 251..300.
\<close>

theorem aqi_category_functions_agree:
  "category_of_status (status (getAQIStatus n)) = Some (category_of_aqi n) \<and>
   category_of_range (getAQIRange n) = Some (category_of_aqi n) \<and>
   category_of_class (getAQIRangeClass n) =
     Some (if 250 < n then Hazardous else category_of_aqi n)"
  by (simp add: getAQIStatus_def category_of_status_def getAQIRange_def category_of_range_def
      getAQIRangeClass_def category_of_class_def category_of_aqi_def)

text \<open>
  Claim C1 as stated fails at the index 275: the status is Severe, the class tag is the
  one of Hazardous.
\<close>

theorem aqi_class_severe_counterexample:
  "category_of_status (status (getAQIStatus 275)) = Some Severe \<and>
   category_of_range (getAQIRange 275) = Some Severe \<and>
   category_of_class (getAQIRangeClass 275) = Some Hazardous"
  by (simp add: getAQIStatus_def category_of_status_def getAQIRange_def category_of_range_def
      getAQIRangeClass_def category_of_class_def)

text \<open>
  Read in exact arithmetic, \<open>calculateAQI\<close> is the breakpoint table of the specification,
  capped at 500.
\<close>

lemma calculateAQI_exact_table:
  "calculateAQI p1 (Num x) p10 = Some (spec_calculateAQI x) \<and>
   spec_calculateAQI x \<le> 500 \<and>
   calculateAQI (Num 0) (Num 0) (Num 0) = Some 0 \<and>
   calculateAQI p1 (Num 12) p10 = Some 50 \<and>
   calculateAQI p1 (Num 35.4) p10 = Some 100 \<and>
   calculateAQI p1 p25 p10 = calculateAQI q1 p25 q10"
proof -
  have "calculateAQI p1 (Num x) p10 = Some (spec_calculateAQI x)"
    by (simp add: calculateAQI_line spec_calculateAQI_line)
  moreover have "spec_calculateAQI x \<le> 500"
    by (simp add: spec_calculateAQI_line)
  moreover have "calculateAQI (Num 0) (Num 0) (Num 0) = Some 0"
    by (simp add: calculateAQI_def Math_round_def)
  moreover have "calculateAQI p1 (Num 12) p10 = Some 50"
    by (simp add: calculateAQI_def Math_round_def)
  moreover have "calculateAQI p1 (Num 35.4) p10 = Some 100"
    by (simp add: calculateAQI_def Math_round_def)
  moreover have "calculateAQI p1 p25 p10 = calculateAQI q1 p25 q10"
    by (simp add: calculateAQI_def)
  ultimately show ?thesis by blast
qed

subsection \<open>Rounding to a double\<close>






subsection \<open>The constants of the calculator as doubles\<close>

















































subsection \<open>The distance between the double computation and the table\<close>































section \<open>Properties of the validator\<close>

lemma set_insert_sorted: "set (insert_sorted cmp x xs) = insert x (set xs)"
  by (induction xs) auto

lemma set_js_sort: "set (js_sort cmp xs) = set xs"
  by (induction xs) (auto simp: set_insert_sorted)

lemma mset_insert_sorted: "mset (insert_sorted cmp x xs) = add_mset x (mset xs)"
  by (induction xs) auto

lemma mset_js_sort: "mset (js_sort cmp xs) = mset xs"
  by (induction xs) (auto simp: mset_insert_sorted)

lemma sorted_insert_sorted:
  "sorted_wrt (\<lambda>a b. getTime b \<le> getTime a) xs \<Longrightarrow>
   sorted_wrt (\<lambda>a b. getTime b \<le> getTime a) (insert_sorted by_recency x xs)"
  by (induction xs) (auto simp: by_recency_def set_insert_sorted)

lemma sorted_js_sort: "sorted_wrt (\<lambda>a b. getTime b \<le> getTime a) (js_sort by_recency xs)"
  by (induction xs) (auto simp: sorted_insert_sorted)

lemma insert_sorted_id:
  "\<forall>y\<in>set xs. cmp x y \<le> 0 \<Longrightarrow> insert_sorted cmp x xs = x # xs"
  by (cases xs) auto

lemma js_sort_sorted_id:
  "sorted_wrt (\<lambda>a b. cmp a b \<le> 0) xs \<Longrightarrow> js_sort cmp xs = xs"
  by (induction xs) (auto simp: insert_sorted_id)

lemma validateTimestamp_Some_iff:
  "validateTimestamp pf ts = Some t \<longleftrightarrow>
     truthy_ts ts \<and> resolved_date pf ts = Some t \<and> 2025 \<le> getFullYear pf t"
  by (auto simp: validateTimestamp_def split: option.splits)

lemma validateTimestamp_None_iff:
  "validateTimestamp pf ts = None \<longleftrightarrow>
     \<not> truthy_ts ts \<or> resolved_date pf ts = None \<or>
     (\<exists>t. resolved_date pf ts = Some t \<and> getFullYear pf t < 2025)"
  by (auto simp: validateTimestamp_def split: option.splits)

lemma filterValidReadings_set:
  "set (filterValidReadings pf rs) =
     {r\<lparr>validTimestamp := validateTimestamp pf (timestamp r)\<rparr> | r.
        r \<in> set rs \<and> validateTimestamp pf (timestamp r) \<noteq> None}"
  by (auto simp: filterValidReadings_def set_js_sort)

lemma filterValidReadings_sorted_getTime:
  "sorted_wrt (\<lambda>a b. getTime b \<le> getTime a) (filterValidReadings pf rs)"
  by (simp add: filterValidReadings_def sorted_js_sort)

lemma filterValidReadings_member:
  assumes "r \<in> set (filterValidReadings pf rs)"
  shows "\<exists>r0 t. r0 \<in> set rs \<and> validateTimestamp pf (timestamp r0) = Some t \<and>
           r = r0\<lparr>validTimestamp := Some t\<rparr>"
  using assms by (auto simp: filterValidReadings_set)

lemma valid_readings_member:
  "r \<in> set (valid_readings pf docs) \<Longrightarrow>
   \<exists>d \<in> set docs. \<exists>t. validateTimestamp pf (timestamp (doc_data d)) = Some t \<and>
      r = makeReading (doc_id d) (doc_data d) t"
  by (induction docs) (auto split: option.splits)

lemma utc_year_samples:
  "utc_year 1750000000000 = 2025" "utc_year 1760000000000 = 2025"
  "utc_year 1735603200000 = 2024" "utc_year 1749945600000 = 2025"
  by code_simp+

lemma validateTimestamp_samples:
  "validateTimestamp utc_platform (TsString ''2024-12-31'') = None"
  "validateTimestamp utc_platform (TsString ''2025-06-15'') = Some 1749945600000"
  "validateTimestamp utc_platform (TsObject (Num 1750000000) []) = Some 1750000000000"
  "validateTimestamp utc_platform (TsNumber 1760000000000) = Some 1760000000000"
  "validateTimestamp utc_platform TsUndefined = None"
  by (simp_all add: validateTimestamp_def utc_platform_def sample_parse_def TimeClip_def
      utc_year_samples)

lemma sample_reading_sel:
  "timestamp (sample_reading ts la lo) = ts"
  "latitude (sample_reading ts la lo) = la"
  "longitude (sample_reading ts la lo) = lo"
  by (simp_all add: sample_reading_def sample_data_def sensor_data.defs reading.defs)

lemma filterValidReadings_sample_batch:
  "filterValidReadings utc_platform sample_batch =
   [(sample_reading (TsNumber 1760000000000) (Num 6.8) (Num 79.9))
       \<lparr>validTimestamp := Some 1760000000000\<rparr>,
    (sample_reading (TsObject (Num 1750000000) []) (Num 6.791164) (Num 79.900497))
       \<lparr>validTimestamp := Some 1750000000000\<rparr>]"
  by (simp add: filterValidReadings_def sample_batch_def validateTimestamp_samples
      sample_reading_sel by_recency_def getTime_def)

text \<open>
  Claim C5. \<open>filterValidReadings\<close> keeps exactly the readings whose timestamp validates,
  each with the resolved time attached as \<open>validTimestamp\<close>: a kept reading has a present
  timestamp that resolves to a date of the year 2025 or later. The result is sorted by
  \<open>validTimestamp\<close>, most recent first. A reading whose timestamp is absent, does not
  resolve, or resolves to a year before 2025 does not occur in the result.
\<close>

theorem filterValidReadings_valid_sorted:
  "(\<forall>r \<in> set (filterValidReadings pf rs).
      \<exists>r0 \<in> set rs. \<exists>t. r = r0\<lparr>validTimestamp := Some t\<rparr> \<and>
        truthy_ts (timestamp r0) \<and> resolved_date pf (timestamp r0) = Some t \<and>
        2025 \<le> getFullYear pf t) \<and>
   mset (filterValidReadings pf rs) =
     mset (map (\<lambda>r. r\<lparr>validTimestamp := validateTimestamp pf (timestamp r)\<rparr>)
            (filter (\<lambda>r. validateTimestamp pf (timestamp r) \<noteq> None) rs)) \<and>
   sorted_wrt (\<lambda>a b. \<exists>s t. validTimestamp a = Some s \<and> validTimestamp b = Some t \<and> t \<le> s)
     (filterValidReadings pf rs) \<and>
   (\<forall>r \<in> set rs.
      \<not> truthy_ts (timestamp r) \<or> resolved_date pf (timestamp r) = None \<or>
      (\<exists>t. resolved_date pf (timestamp r) = Some t \<and> getFullYear pf t < 2025) \<longrightarrow>
      \<not> (\<exists>v. r\<lparr>validTimestamp := v\<rparr> \<in> set (filterValidReadings pf rs)))"
proof (intro conjI)
  show "\<forall>r \<in> set (filterValidReadings pf rs).
      \<exists>r0 \<in> set rs. \<exists>t. r = r0\<lparr>validTimestamp := Some t\<rparr> \<and>
        truthy_ts (timestamp r0) \<and> resolved_date pf (timestamp r0) = Some t \<and>
        2025 \<le> getFullYear pf t"
    using filterValidReadings_member [of _ pf rs]
    by (fastforce simp: validateTimestamp_Some_iff)
  show "mset (filterValidReadings pf rs) =
     mset (map (\<lambda>r. r\<lparr>validTimestamp := validateTimestamp pf (timestamp r)\<rparr>)
            (filter (\<lambda>r. validateTimestamp pf (timestamp r) \<noteq> None) rs))"
    by (simp add: filterValidReadings_def mset_js_sort)
  have valid: "\<exists>t. validTimestamp r = Some t" if "r \<in> set (filterValidReadings pf rs)" for r
    using filterValidReadings_member [OF that] by auto
  have "sorted_wrt (\<lambda>a b. getTime b \<le> getTime a) (filterValidReadings pf rs)"
    by (rule filterValidReadings_sorted_getTime)
  then show "sorted_wrt (\<lambda>a b. \<exists>s t. validTimestamp a = Some s \<and> validTimestamp b = Some t \<and> t \<le> s)
     (filterValidReadings pf rs)"
  proof (rule sorted_wrt_mono_rel [rotated])
    fix a b
    assume "a \<in> set (filterValidReadings pf rs)" "b \<in> set (filterValidReadings pf rs)"
      "getTime b \<le> getTime a"
    then show "\<exists>s t. validTimestamp a = Some s \<and> validTimestamp b = Some t \<and> t \<le> s"
      using valid [of a] valid [of b] by (auto simp: getTime_def)
  qed
  show "\<forall>r \<in> set rs.
      \<not> truthy_ts (timestamp r) \<or> resolved_date pf (timestamp r) = None \<or>
      (\<exists>t. resolved_date pf (timestamp r) = Some t \<and> getFullYear pf t < 2025) \<longrightarrow>
      \<not> (\<exists>v. r\<lparr>validTimestamp := v\<rparr> \<in> set (filterValidReadings pf rs))"
  proof (intro ballI impI notI)
    fix r :: reading
    assume bad: "\<not> truthy_ts (timestamp r) \<or> resolved_date pf (timestamp r) = None \<or>
      (\<exists>t. resolved_date pf (timestamp r) = Some t \<and> getFullYear pf t < 2025)"
    assume "\<exists>v. r\<lparr>validTimestamp := v\<rparr> \<in> set (filterValidReadings pf rs)"
    then obtain v where "r\<lparr>validTimestamp := v\<rparr> \<in> set (filterValidReadings pf rs)" ..
    then obtain r0 t where r0: "validateTimestamp pf (timestamp r0) = Some t"
      "r\<lparr>validTimestamp := v\<rparr> = r0\<lparr>validTimestamp := Some t\<rparr>"
      using filterValidReadings_member by blast
    from r0(2) have "timestamp (r\<lparr>validTimestamp := v\<rparr>) = timestamp (r0\<lparr>validTimestamp := Some t\<rparr>)"
      by simp
    then have "timestamp r = timestamp r0" by simp
    with r0(1) bad show False
      by (auto simp: validateTimestamp_Some_iff)
  qed
qed

theorem filterValidReadings_valid_sorted_witness:
  "filterValidReadings utc_platform sample_batch =
     [(sample_reading (TsNumber 1760000000000) (Num 6.8) (Num 79.9))
         \<lparr>validTimestamp := Some 1760000000000\<rparr>,
      (sample_reading (TsObject (Num 1750000000) []) (Num 6.791164) (Num 79.900497))
         \<lparr>validTimestamp := Some 1750000000000\<rparr>] \<and>
   sorted_wrt (\<lambda>a b. \<exists>s t. validTimestamp a = Some s \<and> validTimestamp b = Some t \<and> t \<le> s)
     (filterValidReadings utc_platform sample_batch) \<and>
   sample_reading (TsString ''2024-12-31'') (Num 6.791164) (Num 79.900497) \<in> set sample_batch \<and>
   resolved_date utc_platform (TsString ''2024-12-31'') = Some 1735603200000 \<and>
   getFullYear utc_platform 1735603200000 < 2025 \<and>
   \<not> (\<exists>v. (sample_reading (TsString ''2024-12-31'') (Num 6.791164) (Num 79.900497))
            \<lparr>validTimestamp := v\<rparr> \<in> set (filterValidReadings utc_platform sample_batch))"
proof -
  note T = filterValidReadings_valid_sorted [of utc_platform sample_batch]
  let ?old = "sample_reading (TsString ''2024-12-31'') (Num 6.791164) (Num 79.900497)"
  have mem: "?old \<in> set sample_batch"
    by (simp add: sample_batch_def)
  have res: "resolved_date utc_platform (timestamp ?old) = Some 1735603200000"
    by (simp add: sample_reading_sel utc_platform_def sample_parse_def)
  have yr: "getFullYear utc_platform 1735603200000 < 2025"
    by (simp add: utc_platform_def utc_year_samples)
  from T mem res yr
  have "\<not> (\<exists>v. ?old\<lparr>validTimestamp := v\<rparr> \<in> set (filterValidReadings utc_platform sample_batch))"
    by blast
  moreover from T
  have "sorted_wrt (\<lambda>a b. \<exists>s t. validTimestamp a = Some s \<and> validTimestamp b = Some t \<and> t \<le> s)
     (filterValidReadings utc_platform sample_batch)"
    by blast
  ultimately show ?thesis
    using mem res yr filterValidReadings_sample_batch by (simp add: sample_reading_sel)
qed

text \<open>
  Claim C2 as stated fails: \<open>filterValidReadings\<close> copies the fields of a reading. A
  reading without latitude, with longitude 0 and without wind direction keeps these
  values.
\<close>

theorem filterValidReadings_keeps_fields_counterexample:
  "map latitude (filterValidReadings utc_platform [sparse_reading]) = [Undefined] \<and>
   map longitude (filterValidReadings utc_platform [sparse_reading]) = [Num 0] \<and>
   map windDirection (filterValidReadings utc_platform [sparse_reading]) = [NoStr] \<and>
   map deviceId (filterValidReadings utc_platform [sparse_reading]) = [NullStr] \<and>
   map rainfall (filterValidReadings utc_platform [sparse_reading]) = [Undefined]"
  by (simp add: filterValidReadings_def sparse_reading_def sparse_data_def
      sensor_data.defs reading.defs validateTimestamp_samples)

text \<open>
  Claim C2 (as amended). The defaults are applied where the dashboard builds a reading from
  a stored document (in \<open>fetchData\<close> and in the live listener): each reading built from a
  snapshot comes from a document whose timestamp validates, and each of its fields other
  than the timestamp is the document's value when that is truthy and the documented
  default otherwise (latitude 6.791164, longitude 79.900497, wind direction N, device id
  empty, every other number 0). \<open>filterValidReadings\<close> itself only sets
  \<open>validTimestamp\<close>.
\<close>

theorem makeReading_defaults:
  "(\<forall>r \<in> set (valid_readings pf docs).
      \<exists>d \<in> set docs. \<exists>t. validateTimestamp pf (timestamp (doc_data d)) = Some t \<and>
        r = makeReading (doc_id d) (doc_data d) t) \<and>
   latitude (makeReading i d t) =
     (if truthy_num (latitude d) then latitude d else Num 6.791164) \<and>
   longitude (makeReading i d t) =
     (if truthy_num (longitude d) then longitude d else Num 79.900497) \<and>
   windDirection (makeReading i d t) =
     (if truthy_str (windDirection d) then windDirection d else Str ''N'') \<and>
   deviceId (makeReading i d t) =
     (if truthy_str (deviceId d) then deviceId d else Str []) \<and>
   temperature (makeReading i d t) =
     (if truthy_num (temperature d) then temperature d else Num 0) \<and>
   humidity (makeReading i d t) = (if truthy_num (humidity d) then humidity d else Num 0) \<and>
   voc (makeReading i d t) = (if truthy_num (voc d) then voc d else Num 0) \<and>
   pm25 (makeReading i d t) = (if truthy_num (pm25 d) then pm25 d else Num 0) \<and>
   pm10 (makeReading i d t) = (if truthy_num (pm10 d) then pm10 d else Num 0) \<and>
   pm1 (makeReading i d t) = (if truthy_num (pm1 d) then pm1 d else Num 0) \<and>
   rainfall (makeReading i d t) = (if truthy_num (rainfall d) then rainfall d else Num 0) \<and>
   windSpeed (makeReading i d t) =
     (if truthy_num (windSpeed d) then windSpeed d else Num 0) \<and>
   co2 (makeReading i d t) = (if truthy_num (co2 d) then co2 d else Num 0) \<and>
   timestamp (makeReading i d t) = timestamp d \<and>
   (\<forall>r \<in> set (filterValidReadings pf rs).
      \<exists>r0 \<in> set rs. r = r0\<lparr>validTimestamp := validateTimestamp pf (timestamp r0)\<rparr>)"
proof -
  have a: "\<forall>r \<in> set (valid_readings pf docs).
      \<exists>d \<in> set docs. \<exists>t. validateTimestamp pf (timestamp (doc_data d)) = Some t \<and>
        r = makeReading (doc_id d) (doc_data d) t"
    using valid_readings_member by blast
  have b: "\<forall>r \<in> set (filterValidReadings pf rs).
      \<exists>r0 \<in> set rs. r = r0\<lparr>validTimestamp := validateTimestamp pf (timestamp r0)\<rparr>"
    by (auto simp: filterValidReadings_def set_js_sort)
  show ?thesis
    using a b by (simp add: makeReading_def or_num_def or_str_def)
qed

theorem makeReading_defaults_witness:
  "valid_readings utc_platform [\<lparr>doc_id = ''a1'', doc_data = sparse_data\<rparr>] =
     [makeReading ''a1'' sparse_data 1760000000000] \<and>
   latitude (makeReading ''a1'' sparse_data 1760000000000) = Num 6.791164 \<and>
   longitude (makeReading ''a1'' sparse_data 1760000000000) = Num 79.900497 \<and>
   windDirection (makeReading ''a1'' sparse_data 1760000000000) = Str ''N'' \<and>
   deviceId (makeReading ''a1'' sparse_data 1760000000000) = Str [] \<and>
   temperature (makeReading ''a1'' sparse_data 1760000000000) = Num 0 \<and>
   pm25 (makeReading ''a1'' sparse_data 1760000000000) = Num 40 \<and>
   set (filterValidReadings utc_platform [sparse_reading]) =
     {sparse_reading\<lparr>validTimestamp := Some 1760000000000\<rparr>}"
  using makeReading_defaults [of utc_platform "[\<lparr>doc_id = ''a1'', doc_data = sparse_data\<rparr>]"
      "''a1''" sparse_data 1760000000000 "[sparse_reading]"]
  by (simp add: sparse_data_def sparse_reading_def sensor_data.defs reading.defs
      validateTimestamp_samples filterValidReadings_def)

section \<open>Properties of the dashboard state\<close>

lemma valid_readings_Nil_iff:
  "valid_readings pf docs = [] \<longleftrightarrow>
     (\<forall>d \<in> set docs. validateTimestamp pf (timestamp (doc_data d)) = None)"
  by (induction docs) (auto split: option.splits)

lemma js_sort_Nil_iff: "js_sort cmp xs = [] \<longleftrightarrow> xs = []"
  by (metis set_js_sort set_empty)

lemma js_sort_head_latest:
  assumes "js_sort by_recency xs = r # rest"
  shows "r \<in> set xs \<and> (\<forall>r' \<in> set xs. getTime r' \<le> getTime r)"
proof -
  have "sorted_wrt (\<lambda>a b. getTime b \<le> getTime a) (r # rest)"
    using sorted_js_sort [of xs] assms by simp
  moreover have "set xs = set (r # rest)"
    using set_js_sort [of by_recency xs] assms by simp
  ultimately show ?thesis by auto
qed

lemma fallback_aqi: "calculateAQI (Num 0) (Num 40) (Num 0) = Some 112"
  by (simp add: calculateAQI_def Math_round_def)

lemma valid_readings_sample_docs:
  "valid_readings utc_platform sample_docs =
     [makeReading ''a1'' (sample_data (TsObject (Num 1750000000) []) (Num 6.79) (Num 79.9))
        1750000000000,
      makeReading ''a2'' (sample_data (TsNumber 1760000000000) (Num 6.8) (Num 79.9))
        1760000000000]"
  by (simp add: sample_docs_def sample_data_def validateTimestamp_samples)

lemma getTime_makeReading: "getTime (makeReading i d t) = t"
  by (simp add: getTime_def makeReading_def)

text \<open>
  Claim C9. When the read of the store fails, or no document of the answer has a valid
  timestamp, \<open>fetchData\<close> sets the current reading to the fallback reading: latitude
  6.791164, longitude 79.900497, temperature 30, humidity 80, voc 140, pm25 40, the other
  numbers 0, wind direction N, and the index computed from pm25 = 40, which is 112. On
  every path \<open>fetchData\<close> ends with the loading flag false and with a current reading.
\<close>

theorem fetchData_fallback:
  "loading (fetchData pf isoNow now answer st) = False \<and>
   currentData (fetchData pf isoNow now answer st) \<noteq> None \<and>
   (answer = None \<or>
    (\<exists>docs. answer = Some docs \<and>
       (\<forall>d \<in> set docs. validateTimestamp pf (timestamp (doc_data d)) = None)) \<longrightarrow>
    currentData (fetchData pf isoNow now answer st) = Some (fallbackReading isoNow now)) \<and>
   latitude (fallbackReading isoNow now) = Num 6.791164 \<and>
   longitude (fallbackReading isoNow now) = Num 79.900497 \<and>
   temperature (fallbackReading isoNow now) = Num 30 \<and>
   humidity (fallbackReading isoNow now) = Num 80 \<and>
   voc (fallbackReading isoNow now) = Num 140 \<and>
   pm25 (fallbackReading isoNow now) = Num 40 \<and>
   pm10 (fallbackReading isoNow now) = Num 0 \<and>
   pm1 (fallbackReading isoNow now) = Num 0 \<and>
   rainfall (fallbackReading isoNow now) = Num 0 \<and>
   windSpeed (fallbackReading isoNow now) = Num 0 \<and>
   co2 (fallbackReading isoNow now) = Num 0 \<and>
   windDirection (fallbackReading isoNow now) = Str ''N'' \<and>
   deviceId (fallbackReading isoNow now) = Str [] \<and>
   validTimestamp (fallbackReading isoNow now) = Some now \<and>
   aqi (fallbackReading isoNow now) = calculateAQI (Num 0) (Num 40) (Num 0) \<and>
   calculateAQI (Num 0) (Num 40) (Num 0) = Some 112"
proof -
  have l: "loading (fetchData pf isoNow now answer st) = False"
    by (simp add: fetchData_def Let_def split: option.splits list.splits)
  have c: "currentData (fetchData pf isoNow now answer st) \<noteq> None"
    by (simp add: fetchData_def Let_def split: option.splits list.splits)
  have f: "currentData (fetchData pf isoNow now answer st) = Some (fallbackReading isoNow now)"
    if "answer = None \<or>
      (\<exists>docs. answer = Some docs \<and>
         (\<forall>d \<in> set docs. validateTimestamp pf (timestamp (doc_data d)) = None))"
    using that
  proof
    assume "answer = None"
    then show ?thesis by (simp add: fetchData_def)
  next
    assume "\<exists>docs. answer = Some docs \<and>
         (\<forall>d \<in> set docs. validateTimestamp pf (timestamp (doc_data d)) = None)"
    then obtain docs where "answer = Some docs" "valid_readings pf docs = []"
      using valid_readings_Nil_iff by blast
    then show ?thesis by (simp add: fetchData_def)
  qed
  show ?thesis
    using l c f by (simp add: fallbackReading_def fallback_aqi)
qed

theorem fetchData_fallback_witness:
  "currentData (fetchData utc_platform ''2025-11-02T00:00:00.000Z'' 1762041600000 None
      initial_dashboard) =
     Some (fallbackReading ''2025-11-02T00:00:00.000Z'' 1762041600000) \<and>
   currentData (fetchData utc_platform ''2025-11-02T00:00:00.000Z'' 1762041600000
      (Some [\<lparr>doc_id = ''a0'', doc_data = sample_data (TsString ''2024-12-31'') Undefined Undefined\<rparr>])
      initial_dashboard) =
     Some (fallbackReading ''2025-11-02T00:00:00.000Z'' 1762041600000) \<and>
   loading initial_dashboard \<and>
   \<not> loading (fetchData utc_platform ''2025-11-02T00:00:00.000Z'' 1762041600000 None
      initial_dashboard)"
  using fetchData_fallback [of utc_platform "''2025-11-02T00:00:00.000Z''" 1762041600000 None
      initial_dashboard]
    fetchData_fallback [of utc_platform "''2025-11-02T00:00:00.000Z''" 1762041600000
      "Some [\<lparr>doc_id = ''a0'', doc_data = sample_data (TsString ''2024-12-31'') Undefined Undefined\<rparr>]"
      initial_dashboard]
  by (simp add: sample_data_def validateTimestamp_samples initial_dashboard_def)

text \<open>
  Claim C8. The callback of the live subscription validates and sorts its own batch only.
  It changes no part of the state other than the current reading: the location groups and
  the history stay as they are. When no document of the batch validates the state is
  unchanged; otherwise the current reading becomes the head of the sorted batch, a valid
  reading of the batch that is at least as recent as every other one. Grouping and history
  are set by \<open>fetchData\<close>: the history is items 1 to 5 of the filtered, sorted list.
\<close>

theorem onSnapshotUpdate_frame:
  "locationGroups (onSnapshotUpdate pf docs st) = locationGroups st \<and>
   historyData (onSnapshotUpdate pf docs st) = historyData st \<and>
   loading (onSnapshotUpdate pf docs st) = loading st \<and>
   selectedLocationGroup (onSnapshotUpdate pf docs st) = selectedLocationGroup st \<and>
   locationHistoryData (onSnapshotUpdate pf docs st) = locationHistoryData st \<and>
   isHistoryExpanded (onSnapshotUpdate pf docs st) = isHistoryExpanded st \<and>
   ((\<forall>d \<in> set docs. validateTimestamp pf (timestamp (doc_data d)) = None) \<longrightarrow>
      onSnapshotUpdate pf docs st = st) \<and>
   ((\<exists>d \<in> set docs. validateTimestamp pf (timestamp (doc_data d)) \<noteq> None) \<longrightarrow>
      (\<exists>r rest. js_sort by_recency (valid_readings pf docs) = r # rest \<and>
         currentData (onSnapshotUpdate pf docs st) = Some r \<and>
         r \<in> set (valid_readings pf docs) \<and>
         (\<forall>r' \<in> set (valid_readings pf docs). getTime r' \<le> getTime r))) \<and>
   historyData (fetchData pf isoNow now (Some docs) st) =
     take 5 (drop 1 (js_sort by_recency (valid_readings pf docs))) \<and>
   locationGroups (fetchData pf isoNow now (Some docs) st) =
     groupLocationsByProximity pf (js_sort by_recency (valid_readings pf docs))"
proof -
  have frame: "locationGroups (onSnapshotUpdate pf docs st) = locationGroups st \<and>
   historyData (onSnapshotUpdate pf docs st) = historyData st \<and>
   loading (onSnapshotUpdate pf docs st) = loading st \<and>
   selectedLocationGroup (onSnapshotUpdate pf docs st) = selectedLocationGroup st \<and>
   locationHistoryData (onSnapshotUpdate pf docs st) = locationHistoryData st \<and>
   isHistoryExpanded (onSnapshotUpdate pf docs st) = isHistoryExpanded st"
    by (simp add: onSnapshotUpdate_def Let_def split: list.splits)
  have none: "onSnapshotUpdate pf docs st = st"
    if "\<forall>d \<in> set docs. validateTimestamp pf (timestamp (doc_data d)) = None"
  proof -
    from that have "valid_readings pf docs = []"
      by (simp add: valid_readings_Nil_iff)
    then show ?thesis by (simp add: onSnapshotUpdate_def)
  qed
  have some: "\<exists>r rest. js_sort by_recency (valid_readings pf docs) = r # rest \<and>
         currentData (onSnapshotUpdate pf docs st) = Some r \<and>
         r \<in> set (valid_readings pf docs) \<and>
         (\<forall>r' \<in> set (valid_readings pf docs). getTime r' \<le> getTime r)"
    if "\<exists>d \<in> set docs. validateTimestamp pf (timestamp (doc_data d)) \<noteq> None"
  proof -
    from that have "valid_readings pf docs \<noteq> []"
      by (simp add: valid_readings_Nil_iff)
    then have "js_sort by_recency (valid_readings pf docs) \<noteq> []"
      by (simp add: js_sort_Nil_iff)
    then obtain r rest where eq: "js_sort by_recency (valid_readings pf docs) = r # rest"
      by (cases "js_sort by_recency (valid_readings pf docs)") auto
    have "currentData (onSnapshotUpdate pf docs st) = Some r"
      by (simp add: onSnapshotUpdate_def eq)
    with eq js_sort_head_latest [OF eq] show ?thesis by blast
  qed
  have hist: "historyData (fetchData pf isoNow now (Some docs) st) =
     take 5 (drop 1 (js_sort by_recency (valid_readings pf docs)))"
    by (simp add: fetchData_def Let_def slice_def split: list.splits)
  have grp: "locationGroups (fetchData pf isoNow now (Some docs) st) =
     groupLocationsByProximity pf (js_sort by_recency (valid_readings pf docs))"
    by (simp add: fetchData_def Let_def split: list.splits)
  show ?thesis
    using frame none some hist grp by blast
qed

theorem onSnapshotUpdate_frame_witness:
  "(\<exists>d \<in> set sample_docs. validateTimestamp utc_platform (timestamp (doc_data d)) \<noteq> None) \<and>
   currentData (onSnapshotUpdate utc_platform sample_docs initial_dashboard) =
     Some (makeReading ''a2'' (sample_data (TsNumber 1760000000000) (Num 6.8) (Num 79.9))
        1760000000000) \<and>
   locationGroups (onSnapshotUpdate utc_platform sample_docs initial_dashboard) = [] \<and>
   historyData (onSnapshotUpdate utc_platform sample_docs initial_dashboard) = [] \<and>
   onSnapshotUpdate utc_platform [hd sample_docs] initial_dashboard = initial_dashboard \<and>
   historyData (fetchData utc_platform [] 0 (Some sample_docs) initial_dashboard) =
     [makeReading ''a1'' (sample_data (TsObject (Num 1750000000) []) (Num 6.79) (Num 79.9))
        1750000000000]"
proof -
  have srt: "js_sort by_recency (valid_readings utc_platform sample_docs) =
     [makeReading ''a2'' (sample_data (TsNumber 1760000000000) (Num 6.8) (Num 79.9))
        1760000000000,
      makeReading ''a1'' (sample_data (TsObject (Num 1750000000) []) (Num 6.79) (Num 79.9))
        1750000000000]"
    by (simp add: valid_readings_sample_docs by_recency_def getTime_makeReading)
  have ex: "\<exists>d \<in> set sample_docs. validateTimestamp utc_platform (timestamp (doc_data d)) \<noteq> None"
    by (simp add: sample_docs_def sample_data_def validateTimestamp_samples)
  have old: "\<forall>d \<in> set [hd sample_docs].
      validateTimestamp utc_platform (timestamp (doc_data d)) = None"
    by (simp add: sample_docs_def sample_data_def validateTimestamp_samples)
  show ?thesis
    using onSnapshotUpdate_frame [of utc_platform sample_docs initial_dashboard "[]" 0]
      onSnapshotUpdate_frame [of utc_platform "[hd sample_docs]" initial_dashboard "[]" 0]
      ex old srt
    by (simp add: initial_dashboard_def)
qed

section \<open>The great-circle distance\<close>

lemma haversine_hav:
  "haversine la1 lo1 la2 lo2 =
     6371000 * (2 * Math_atan2 (sqrt (hav la1 lo1 la2 lo2)) (sqrt (1 - hav la1 lo1 la2 lo2)))"
  by (simp add: haversine_def hav_def Let_def)

lemma sin_half_sq: "sin (x / 2) * sin (x / 2) = (1 - cos x) / 2" for x :: real
  using cos_double_sin [of "x / 2"] by (simp add: power2_eq_square)

lemma hav_rad:
  fixes p1 p2 l1 l2 :: real
  shows "4 * (sin ((p2 - p1) / 2) * sin ((p2 - p1) / 2) +
           cos p1 * cos p2 * sin ((l2 - l1) / 2) * sin ((l2 - l1) / 2)) =
         2 - 2 * (cos p1 * cos p2 * cos (l2 - l1) + sin p1 * sin p2)"
proof -
  have "4 * (sin ((p2 - p1) / 2) * sin ((p2 - p1) / 2) +
           cos p1 * cos p2 * sin ((l2 - l1) / 2) * sin ((l2 - l1) / 2)) =
        4 * (sin ((p2 - p1) / 2) * sin ((p2 - p1) / 2) +
           cos p1 * cos p2 * (sin ((l2 - l1) / 2) * sin ((l2 - l1) / 2)))"
    by (simp only: mult.assoc)
  also have "\<dots> = 4 * ((1 - cos (p2 - p1)) / 2 + cos p1 * cos p2 * ((1 - cos (l2 - l1)) / 2))"
    by (simp only: sin_half_sq)
  also have "\<dots> = 2 * (1 - cos (p2 - p1)) + 2 * (cos p1 * cos p2 * (1 - cos (l2 - l1)))"
    by simp
  also have "\<dots> = 2 - 2 * (cos p1 * cos p2 * cos (l2 - l1) + sin p1 * sin p2)"
    by (simp add: cos_diff algebra_simps)
  finally show ?thesis .
qed

lemma chord_algebra:
  fixes c1 c2 k1 k2 s1 s2 z1 z2 :: real
  assumes "k1\<^sup>2 + s1\<^sup>2 = 1" "k2\<^sup>2 + s2\<^sup>2 = 1" "c1\<^sup>2 + z1\<^sup>2 = 1" "c2\<^sup>2 + z2\<^sup>2 = 1"
  shows "(c1 * k1 - c2 * k2)\<^sup>2 + (c1 * s1 - c2 * s2)\<^sup>2 + (z1 - z2)\<^sup>2 =
         2 - 2 * (c1 * c2 * (k2 * k1 + s2 * s1) + z1 * z2)"
    and "(c1 * k1 + c2 * k2)\<^sup>2 + (c1 * s1 + c2 * s2)\<^sup>2 + (z1 + z2)\<^sup>2 =
         2 + 2 * (c1 * c2 * (k2 * k1 + s2 * s1) + z1 * z2)"
proof -
  have a: "(c1 * k1 - c2 * k2)\<^sup>2 + (c1 * s1 - c2 * s2)\<^sup>2 + (z1 - z2)\<^sup>2 =
        c1\<^sup>2 * (k1\<^sup>2 + s1\<^sup>2) + c2\<^sup>2 * (k2\<^sup>2 + s2\<^sup>2) + (z1\<^sup>2 + z2\<^sup>2) -
        2 * (c1 * c2 * (k2 * k1 + s2 * s1) + z1 * z2)"
    by (simp add: power2_eq_square algebra_simps)
  have b: "(c1 * k1 + c2 * k2)\<^sup>2 + (c1 * s1 + c2 * s2)\<^sup>2 + (z1 + z2)\<^sup>2 =
        c1\<^sup>2 * (k1\<^sup>2 + s1\<^sup>2) + c2\<^sup>2 * (k2\<^sup>2 + s2\<^sup>2) + (z1\<^sup>2 + z2\<^sup>2) +
        2 * (c1 * c2 * (k2 * k1 + s2 * s1) + z1 * z2)"
    by (simp add: power2_eq_square algebra_simps)
  have c: "c1\<^sup>2 * (k1\<^sup>2 + s1\<^sup>2) + c2\<^sup>2 * (k2\<^sup>2 + s2\<^sup>2) + (z1\<^sup>2 + z2\<^sup>2) = 2"
    unfolding assms(1,2) using assms(3,4) by simp
  show "(c1 * k1 - c2 * k2)\<^sup>2 + (c1 * s1 - c2 * s2)\<^sup>2 + (z1 - z2)\<^sup>2 =
         2 - 2 * (c1 * c2 * (k2 * k1 + s2 * s1) + z1 * z2)"
    unfolding a c ..
  show "(c1 * k1 + c2 * k2)\<^sup>2 + (c1 * s1 + c2 * s2)\<^sup>2 + (z1 + z2)\<^sup>2 =
         2 + 2 * (c1 * c2 * (k2 * k1 + s2 * s1) + z1 * z2)"
    unfolding b c ..
qed

lemma dot_chord:
  fixes p1 p2 l1 l2 :: real
  shows "(cos p1 * cos l1 - cos p2 * cos l2)\<^sup>2 + (cos p1 * sin l1 - cos p2 * sin l2)\<^sup>2 +
         (sin p1 - sin p2)\<^sup>2 =
         2 - 2 * (cos p1 * cos p2 * cos (l2 - l1) + sin p1 * sin p2)"
  using chord_algebra(1) [of "cos l1" "sin l1" "cos l2" "sin l2" "cos p1" "sin p1" "cos p2" "sin p2"]
  by (simp add: cos_diff)

lemma dot_chord_plus:
  fixes p1 p2 l1 l2 :: real
  shows "(cos p1 * cos l1 + cos p2 * cos l2)\<^sup>2 + (cos p1 * sin l1 + cos p2 * sin l2)\<^sup>2 +
         (sin p1 + sin p2)\<^sup>2 =
         2 + 2 * (cos p1 * cos p2 * cos (l2 - l1) + sin p1 * sin p2)"
  using chord_algebra(2) [of "cos l1" "sin l1" "cos l2" "sin l2" "cos p1" "sin p1" "cos p2" "sin p2"]
  by (simp add: cos_diff)

lemma hav_deg_rad:
  "hav la1 lo1 la2 lo2 =
     sin ((la2 * pi / 180 - la1 * pi / 180) / 2) * sin ((la2 * pi / 180 - la1 * pi / 180) / 2) +
     cos (la1 * pi / 180) * cos (la2 * pi / 180) *
       sin ((lo2 * pi / 180 - lo1 * pi / 180) / 2) * sin ((lo2 * pi / 180 - lo1 * pi / 180) / 2)"
  by (simp add: hav_def diff_divide_distrib left_diff_distrib)

lemma hav_chord:
  "4 * hav la1 lo1 la2 lo2 =
     (ux la1 lo1 - ux la2 lo2)\<^sup>2 + (uy la1 lo1 - uy la2 lo2)\<^sup>2 + (uz la1 lo1 - uz la2 lo2)\<^sup>2"
  unfolding hav_deg_rad ux_def uy_def uz_def
  by (simp only: hav_rad dot_chord)

lemma hav_chord_plus:
  "4 - 4 * hav la1 lo1 la2 lo2 =
     (ux la1 lo1 + ux la2 lo2)\<^sup>2 + (uy la1 lo1 + uy la2 lo2)\<^sup>2 + (uz la1 lo1 + uz la2 lo2)\<^sup>2"
proof -
  have "4 * hav la1 lo1 la2 lo2 =
      2 - 2 * (cos (la1 * pi / 180) * cos (la2 * pi / 180) * cos (lo2 * pi / 180 - lo1 * pi / 180) +
         sin (la1 * pi / 180) * sin (la2 * pi / 180))"
    unfolding hav_deg_rad by (simp only: hav_rad)
  then show ?thesis
    unfolding ux_def uy_def uz_def by (simp only: dot_chord_plus) 
qed

lemma hav_nonneg: "0 \<le> hav la1 lo1 la2 lo2"
proof -
  have "0 \<le> 4 * hav la1 lo1 la2 lo2"
    unfolding hav_chord by simp
  then show ?thesis by simp
qed

lemma hav_le_1: "hav la1 lo1 la2 lo2 \<le> 1"
proof -
  have "0 \<le> 4 - 4 * hav la1 lo1 la2 lo2"
    unfolding hav_chord_plus by simp
  then show ?thesis by simp
qed

lemma hav_sym: "hav la1 lo1 la2 lo2 = hav la2 lo2 la1 lo1"
proof -
  have "4 * hav la1 lo1 la2 lo2 = 4 * hav la2 lo2 la1 lo1"
    unfolding hav_chord by (simp add: power2_commute)
  then show ?thesis by simp
qed

lemma hav_self: "hav la lo la lo = 0"
  by (simp add: hav_def)

lemma sq_sum_le: "((a::real) - c)\<^sup>2 \<le> 2 * (a - b)\<^sup>2 + 2 * (b - c)\<^sup>2"
proof -
  have "0 \<le> ((a - b) - (b - c))\<^sup>2" by simp
  then show ?thesis by (simp add: power2_eq_square algebra_simps)
qed

lemma sum3_le:
  fixes a b c d e f g h i :: real
  assumes "a \<le> 2 * b + 2 * c" "d \<le> 2 * e + 2 * f" "g \<le> 2 * h + 2 * i"
  shows "a + d + g \<le> 2 * (b + e + h) + 2 * (c + f + i)"
  using assms by argo

lemma hav_triangle:
  "hav la1 lo1 la3 lo3 \<le> 2 * hav la1 lo1 la2 lo2 + 2 * hav la2 lo2 la3 lo3"
proof -
  have "4 * hav la1 lo1 la3 lo3 \<le> 2 * (4 * hav la1 lo1 la2 lo2) + 2 * (4 * hav la2 lo2 la3 lo3)"
    unfolding hav_chord
    by (intro sum3_le sq_sum_le)
  then show ?thesis by simp
qed

lemma atan2_sqrt_arcsin:
  assumes "0 \<le> a" "a \<le> 1"
  shows "Math_atan2 (sqrt a) (sqrt (1 - a)) = arcsin (sqrt a)"
proof (cases "a = 1")
  case True
  then show ?thesis by (simp add: Math_atan2_def)
next
  case False
  with assms have lt: "a < 1" by simp
  then have pos: "0 < sqrt (1 - a)" by simp
  have "sqrt a < 1" using lt assms by (simp add: real_sqrt_lt_1_iff)
  moreover have "- 1 < sqrt a"
    using real_sqrt_ge_zero [OF assms(1)] by linarith
  ultimately have "arcsin (sqrt a) = arctan (sqrt a / sqrt (1 - (sqrt a)\<^sup>2))"
    by (rule arcsin_arctan [rotated])
  also have "(sqrt a)\<^sup>2 = a" using assms by simp
  finally show ?thesis using pos by (simp add: Math_atan2_def)
qed

lemma haversine_arcsin:
  "haversine la1 lo1 la2 lo2 = 6371000 * (2 * arcsin (sqrt (hav la1 lo1 la2 lo2)))"
  by (simp add: haversine_hav atan2_sqrt_arcsin hav_nonneg hav_le_1)

lemma sqrt_hav_bounds: "0 \<le> sqrt (hav la1 lo1 la2 lo2)" "sqrt (hav la1 lo1 la2 lo2) \<le> 1"
  using hav_nonneg [of la1 lo1 la2 lo2] hav_le_1 [of la1 lo1 la2 lo2] by simp_all

lemma arcsin_nonneg: "0 \<le> s \<Longrightarrow> s \<le> 1 \<Longrightarrow> 0 \<le> arcsin s"
  using arcsin_le_arcsin [of 0 s] by simp

lemma haversine_nonneg: "0 \<le> haversine la1 lo1 la2 lo2"
  using arcsin_nonneg [OF sqrt_hav_bounds] by (simp add: haversine_arcsin)

lemma haversine_sym: "haversine la1 lo1 la2 lo2 = haversine la2 lo2 la1 lo1"
  by (simp add: haversine_arcsin hav_sym [of la1 lo1 la2 lo2])

lemma haversine_self: "haversine la lo la lo = 0"
  by (simp add: haversine_arcsin hav_self)

lemma pi_ge_3: "3 \<le> pi"
proof -
  have "sin (pi / 6) \<le> pi / 6"
    by (rule sin_x_le_x) simp
  then show ?thesis by (simp add: sin_30)
qed

lemma sin_lower:
  fixes x :: real
  assumes "0 \<le> x" "x \<le> 1"
  shows "5 / 6 * x \<le> sin x"
proof -
  have "\<bar>sin x - (\<Sum>m<3. sin_coeff m * x ^ m)\<bar> \<le> inverse (fact 3) * \<bar>x\<bar> ^ 3"
    by (rule Maclaurin_sin_bound)
  moreover have "(\<Sum>m<3. sin_coeff m * x ^ m) = x"
    by (simp add: sin_coeff_def eval_nat_numeral)
  moreover have "inverse (fact 3) * \<bar>x\<bar> ^ 3 = x ^ 3 / 6"
    using assms by (simp add: eval_nat_numeral)
  ultimately have "x - x ^ 3 / 6 \<le> sin x" by linarith
  moreover have "x ^ 3 \<le> x"
  proof -
    have "x * x \<le> 1 * 1" using assms by (intro mult_mono) simp_all
    then have "x * x * x \<le> 1 * x" using assms by (intro mult_right_mono) simp_all
    then show ?thesis by (simp add: eval_nat_numeral)
  qed
  ultimately show ?thesis by linarith
qed

lemma arcsin_upper:
  assumes "0 \<le> s" "s \<le> 5 / 6"
  shows "arcsin s \<le> 6 / 5 * s"
proof -
  have y: "0 \<le> 6 / 5 * s" "6 / 5 * s \<le> 1" using assms by simp_all
  have "s \<le> sin (6 / 5 * s)"
    using sin_lower [OF y] by simp
  then have "arcsin s \<le> arcsin (sin (6 / 5 * s))"
    using assms by (intro arcsin_le_arcsin) simp_all
  also have "\<dots> = 6 / 5 * s"
    using y pi_ge_two by (intro arcsin_sin) linarith+
  finally show ?thesis .
qed

lemma close_sqrt_hav:
  assumes "haversine la1 lo1 la2 lo2 \<le> 5"
  shows "sqrt (hav la1 lo1 la2 lo2) \<le> 5 / 12742000"
proof -
  let ?s = "sqrt (hav la1 lo1 la2 lo2)"
  have th: "arcsin ?s \<le> 5 / 12742000"
    using assms by (simp add: haversine_arcsin)
  have "sin (arcsin ?s) \<le> arcsin ?s"
    by (intro sin_x_le_x arcsin_nonneg sqrt_hav_bounds)
  moreover have "sin (arcsin ?s) = ?s"
    using sqrt_hav_bounds [of la1 lo1 la2 lo2] by (intro sin_arcsin) linarith+
  ultimately show ?thesis using th by linarith
qed

lemma close_hav:
  assumes "haversine la1 lo1 la2 lo2 \<le> 5"
  shows "hav la1 lo1 la2 lo2 \<le> (5 / 12742000)\<^sup>2"
proof -
  have "(sqrt (hav la1 lo1 la2 lo2))\<^sup>2 \<le> (5 / 12742000)\<^sup>2"
    using close_sqrt_hav [OF assms] sqrt_hav_bounds(1) [of la1 lo1 la2 lo2]
    by (intro power_mono) simp_all
  then show ?thesis using hav_nonneg [of la1 lo1 la2 lo2] by simp
qed

lemma haversine_both_close:
  assumes "haversine la1 lo1 la lo \<le> 5" "haversine la2 lo2 la lo \<le> 5"
  shows "haversine la1 lo1 la2 lo2 \<le> 12"
proof -
  let ?e = "5 / 12742000 :: real"
  have "hav la1 lo1 la2 lo2 \<le> 2 * hav la1 lo1 la lo + 2 * hav la lo la2 lo2"
    by (rule hav_triangle)
  also have "\<dots> = 2 * hav la1 lo1 la lo + 2 * hav la2 lo2 la lo"
    by (simp add: hav_sym [of la lo la2 lo2])
  also have "\<dots> \<le> 2 * ?e\<^sup>2 + 2 * ?e\<^sup>2"
    using close_hav [OF assms(1)] close_hav [OF assms(2)] by linarith
  also have "\<dots> = (5 / 6371000)\<^sup>2"
    by (simp add: power2_eq_square)
  finally have "sqrt (hav la1 lo1 la2 lo2) \<le> sqrt ((5 / 6371000)\<^sup>2)"
    by (rule real_sqrt_le_mono)
  then have s: "sqrt (hav la1 lo1 la2 lo2) \<le> 5 / 6371000" by simp
  have "arcsin (sqrt (hav la1 lo1 la2 lo2)) \<le> 6 / 5 * sqrt (hav la1 lo1 la2 lo2)"
    using s sqrt_hav_bounds(1) [of la1 lo1 la2 lo2] by (intro arcsin_upper) linarith+
  with s have "arcsin (sqrt (hav la1 lo1 la2 lo2)) \<le> 6 / 6371000" by linarith
  then show ?thesis by (simp add: haversine_arcsin)
qed

lemma haversine_meridian:
  assumes "\<bar>la2 - la1\<bar> \<le> 180"
  shows "haversine la1 lo la2 lo = 6371000 * (\<bar>la2 - la1\<bar> * pi / 180)"
proof -
  define x where "x = (la2 - la1) * pi / 180 / 2"
  have ax: "\<bar>x\<bar> = \<bar>la2 - la1\<bar> * pi / 360"
    by (simp add: x_def abs_mult)
  have "\<bar>la2 - la1\<bar> * pi \<le> 180 * pi"
    using assms by (intro mult_right_mono) simp_all
  then have bnd: "\<bar>x\<bar> \<le> pi / 2" unfolding ax by simp
  have h: "hav la1 lo la2 lo = (sin x)\<^sup>2"
    by (simp add: hav_def x_def power2_eq_square)
  have "sqrt (hav la1 lo la2 lo) = \<bar>sin x\<bar>"
    by (simp add: h)
  also have "\<dots> = sin \<bar>x\<bar>"
  proof (cases "0 \<le> x")
    case True
    then have "0 \<le> sin x" using bnd pi_ge_two by (intro sin_ge_zero) linarith+
    with True show ?thesis by simp
  next
    case False
    then have "0 \<le> sin (- x)" using bnd pi_ge_two by (intro sin_ge_zero) linarith+
    with False show ?thesis by simp
  qed
  finally have "arcsin (sqrt (hav la1 lo la2 lo)) = arcsin (sin \<bar>x\<bar>)" by simp
  also have "\<dots> = \<bar>x\<bar>"
    using bnd by (intro arcsin_sin) linarith+
  finally have eq: "arcsin (sqrt (hav la1 lo la2 lo)) = \<bar>la2 - la1\<bar> * pi / 360"
    unfolding ax .
  show ?thesis
    unfolding haversine_arcsin eq by simp
qed

section \<open>Properties of the proximity grouper\<close>

lemma within_threshold_anchor: "within_threshold r g = within5 (anchor r) (anchor g)"
  by (simp add: within_threshold_def within5_def anchor_def)

lemma calculateDistance_numeric:
  "numeric p \<Longrightarrow> numeric q \<Longrightarrow>
   \<exists>a1 o1 a2 o2. to_number (fst p) = Some a1 \<and> to_number (snd p) = Some o1 \<and>
     to_number (fst q) = Some a2 \<and> to_number (snd q) = Some o2 \<and>
     calculateDistance (fst p) (snd p) (fst q) (snd q) = Some (haversine a1 o1 a2 o2)"
  by (auto simp: numeric_def calculateDistance_def)

lemma calculateDistance_Some:
  "calculateDistance la1 lo1 la2 lo2 = Some d \<longleftrightarrow>
   (\<exists>a1 o1 a2 o2. to_number la1 = Some a1 \<and> to_number lo1 = Some o1 \<and>
      to_number la2 = Some a2 \<and> to_number lo2 = Some o2 \<and> d = haversine a1 o1 a2 o2)"
  by (auto simp: calculateDistance_def split: option.splits)

lemma calculateDistance_sym:
  "calculateDistance la1 lo1 la2 lo2 = calculateDistance la2 lo2 la1 lo1"
  by (auto simp: calculateDistance_def haversine_sym split: option.splits)

lemma not_within5_beyond5: "numeric p \<Longrightarrow> numeric q \<Longrightarrow> \<not> within5 p q \<Longrightarrow> beyond5 p q"
  using calculateDistance_numeric [of p q] by (auto simp: within5_def beyond5_def)

lemma beyond5_sym: "beyond5 p q = beyond5 q p"
  by (simp add: beyond5_def calculateDistance_sym [of "fst p"])

lemma within5_sym: "within5 p q = within5 q p"
  by (simp add: within5_def calculateDistance_sym [of "fst p"])

section \<open>The inner loop\<close>

lemma push_None_iff:
  "push_to_first_group r gs = None \<longleftrightarrow> (\<forall>g \<in> set gs. \<not> within_threshold r g)"
  by (induction gs) auto

lemma push_Some_first:
  assumes "i < length gs" "within_threshold r (gs ! i)" "\<forall>k<i. \<not> within_threshold r (gs ! k)"
  shows "push_to_first_group r gs = Some (gs[i := (gs ! i)\<lparr>readings := readings (gs ! i) @ [r]\<rparr>])"
  using assms
proof (induction gs arbitrary: i)
  case Nil
  then show ?case by simp
next
  case (Cons g gs)
  show ?case
  proof (cases i)
    case 0
    with Cons.prems show ?thesis by simp
  next
    case (Suc j)
    with Cons.prems have "\<not> within_threshold r g" by auto
    moreover have "push_to_first_group r gs =
        Some (gs[j := (gs ! j)\<lparr>readings := readings (gs ! j) @ [r]\<rparr>])"
      using Cons.prems Suc by (intro Cons.IH) auto
    ultimately show ?thesis using Suc by simp
  qed
qed

lemma push_Some_anchors:
  "push_to_first_group r gs = Some gs' \<Longrightarrow> map anchor gs' = map anchor gs"
  by (induction gs arbitrary: gs') (auto simp: anchor_def split: if_splits)

lemma place_reading_found:
  assumes "i < length gs" "within_threshold r (gs ! i)" "\<forall>k<i. \<not> within_threshold r (gs ! k)"
  shows "place_reading gs r = gs[i := (gs ! i)\<lparr>readings := readings (gs ! i) @ [r]\<rparr>]"
  by (simp add: place_reading_def push_Some_first [OF assms])

lemma place_reading_new:
  assumes "\<forall>g \<in> set gs. \<not> within_threshold r g"
  shows "place_reading gs r = gs @ [group_of r]"
  using assms by (simp add: place_reading_def push_None_iff [symmetric] group_of_def)

lemma anchors_place_reading:
  "map anchor (place_reading gs r) =
     (if \<exists>g \<in> set gs. within_threshold r g then map anchor gs
      else map anchor gs @ [anchor r])"
proof (cases "push_to_first_group r gs")
  case None
  then show ?thesis
    by (simp add: place_reading_def push_None_iff [symmetric] anchor_def)
next
  case (Some gs')
  then have "\<exists>g \<in> set gs. within_threshold r g"
    using push_None_iff [of r gs] by auto
  then show ?thesis
    using Some by (simp add: place_reading_def push_Some_anchors)
qed

lemma anchors_foldl_prefix:
  "\<exists>new. map anchor (foldl place_reading gs rs) = map anchor gs @ new"
proof (induction rs arbitrary: gs)
  case Nil
  then show ?case by simp
next
  case (Cons r rs)
  obtain new where "map anchor (foldl place_reading (place_reading gs r) rs) =
      map anchor (place_reading gs r) @ new"
    using Cons.IH by blast
  then show ?case
    by (auto simp: anchors_place_reading)
qed

section \<open>Anchors stay apart\<close>

lemma apart_inv_take: "apart_inv ps \<Longrightarrow> apart_inv (take n ps)"
proof -
  assume a: "apart_inv ps"
  then have "sorted_wrt (\<lambda>p q. beyond5 q p) (take n ps)"
    unfolding apart_inv_def by (intro sorted_wrt_take) simp
  moreover have "\<forall>p \<in> set (take n ps). numeric p"
    using a in_set_takeD [of _ n ps] unfolding apart_inv_def by fast
  ultimately show ?thesis by (simp add: apart_inv_def)
qed

lemma apart_inv_place:
  assumes "apart_inv (map anchor gs)" "numeric (anchor r)"
  shows "apart_inv (map anchor (place_reading gs r))"
proof (cases "\<exists>g \<in> set gs. within_threshold r g")
  case True
  then show ?thesis using assms(1) by (simp add: anchors_place_reading)
next
  case False
  then have "\<forall>g \<in> set gs. beyond5 (anchor r) (anchor g)"
    using assms by (auto simp: within_threshold_anchor apart_inv_def intro!: not_within5_beyond5)
  then show ?thesis
    using False assms by (auto simp: anchors_place_reading apart_inv_def sorted_wrt_append)
qed

lemma apart_inv_foldl:
  assumes "apart_inv (map anchor gs)" "\<forall>r \<in> set rs. numeric (anchor r)"
  shows "apart_inv (map anchor (foldl place_reading gs rs))"
  using assms
proof (induction rs arbitrary: gs)
  case Nil
  then show ?case by simp
next
  case (Cons r rs)
  then show ?case by (simp add: apart_inv_place)
qed

lemma anchor_filterValidReadings:
  "r \<in> set (filterValidReadings pf rs) \<Longrightarrow> \<exists>r0 \<in> set rs. anchor r = anchor r0"
  by (auto simp: filterValidReadings_def set_js_sort anchor_def)

lemma apart_inv_groups:
  assumes "\<forall>r \<in> set rs. numeric (anchor r)"
  shows "apart_inv (map anchor (groupLocationsByProximity pf rs))"
proof -
  have "\<forall>r \<in> set (filterValidReadings pf rs). numeric (anchor r)"
    using assms anchor_filterValidReadings by metis
  then have "apart_inv (map anchor (all_groups (filterValidReadings pf rs)))"
    unfolding all_groups_def by (intro apart_inv_foldl) (simp_all add: apart_inv_def)
  then have "apart_inv (take 5 (map anchor (all_groups (filterValidReadings pf rs))))"
    by (rule apart_inv_take)
  then show ?thesis
    by (simp add: groupLocationsByProximity_def take_map)
qed

lemma anchor_group_of: "anchor (group_of r) = anchor r"
  by (simp add: anchor_def group_of_def)

lemma beyond5_not_within5: "beyond5 p q \<Longrightarrow> \<not> within5 p q"
  by (auto simp: beyond5_def within5_def split: option.splits)

lemma foldl_place_all_new:
  assumes "sorted_wrt (\<lambda>a b. \<not> within5 (anchor b) (anchor a)) ys"
    and "\<forall>x \<in> set xs. \<forall>y \<in> set ys. \<not> within5 (anchor y) (anchor x)"
  shows "foldl place_reading (map group_of xs) ys = map group_of (xs @ ys)"
  using assms
proof (induction ys arbitrary: xs)
  case Nil
  then show ?case by simp
next
  case (Cons y ys)
  have "\<forall>g \<in> set (map group_of xs). \<not> within_threshold y g"
    using Cons.prems(2) by (auto simp: within_threshold_anchor anchor_group_of)
  then have step: "place_reading (map group_of xs) y = map group_of (xs @ [y])"
    by (simp add: place_reading_new)
  have "foldl place_reading (map group_of (xs @ [y])) ys = map group_of ((xs @ [y]) @ ys)"
    using Cons.prems by (intro Cons.IH) auto
  then show ?case by (simp add: step)
qed

lemma all_groups_all_new:
  assumes "sorted_wrt (\<lambda>a b. \<not> within5 (anchor b) (anchor a)) rs"
  shows "all_groups rs = map group_of rs"
  using foldl_place_all_new [of rs "[]"] assms by (simp add: all_groups_def)

lemma anchor_stamp: "anchor (stamp pf r) = anchor r"
  by (simp add: anchor_def stamp_def)

lemma filterValidReadings_sorted_input:
  assumes "\<forall>r \<in> set rs. validateTimestamp pf (timestamp r) \<noteq> None"
    and "sorted_wrt (\<lambda>a b. \<exists>s t. validateTimestamp pf (timestamp a) = Some s \<and>
            validateTimestamp pf (timestamp b) = Some t \<and> t \<le> s) rs"
  shows "filterValidReadings pf rs = map (stamp pf) rs"
proof -
  have f: "filter (\<lambda>r. validateTimestamp pf (timestamp r) \<noteq> None) rs = rs"
    using assms(1) by (simp add: filter_id_conv)
  have "sorted_wrt (\<lambda>a b. by_recency (stamp pf a) (stamp pf b) \<le> 0) rs"
    using assms(2)
    by (rule sorted_wrt_mono_rel [rotated]) (auto simp: by_recency_def getTime_def stamp_def)
  then have "sorted_wrt (\<lambda>a b. by_recency a b \<le> 0) (map (stamp pf) rs)"
    by (simp add: sorted_wrt_map)
  then have "js_sort by_recency (map (stamp pf) rs) = map (stamp pf) rs"
    by (rule js_sort_sorted_id)
  then show ?thesis
    using f unfolding filterValidReadings_def stamp_def by simp
qed

lemma groups_of_scattered:
  assumes "\<forall>r \<in> set rs. validateTimestamp pf (timestamp r) \<noteq> None"
    and "sorted_wrt (\<lambda>a b. \<exists>s t. validateTimestamp pf (timestamp a) = Some s \<and>
            validateTimestamp pf (timestamp b) = Some t \<and> t \<le> s) rs"
    and "sorted_wrt (\<lambda>a b. beyond5 (anchor b) (anchor a)) rs"
  shows "groupLocationsByProximity pf rs = map (\<lambda>r. group_of (stamp pf r)) (take 5 rs)"
proof -
  have "sorted_wrt (\<lambda>a b. \<not> within5 (anchor b) (anchor a)) rs"
    using assms(3) by (rule sorted_wrt_mono_rel [rotated]) (simp add: beyond5_not_within5)
  then have "sorted_wrt (\<lambda>a b. \<not> within5 (anchor b) (anchor a)) (map (stamp pf) rs)"
    by (simp add: sorted_wrt_map anchor_stamp)
  then have "all_groups (map (stamp pf) rs) = map group_of (map (stamp pf) rs)"
    by (rule all_groups_all_new)
  then show ?thesis
    by (simp add: groupLocationsByProximity_def filterValidReadings_sorted_input [OF assms(1,2)]
        take_map o_def)
qed

lemma calculateDistance_self:
  "calculateDistance la lo la lo = Some d \<Longrightarrow> d = 0"
  by (auto simp: calculateDistance_Some haversine_self)

lemma beyond5_irrefl: "\<not> beyond5 p p"
  by (auto simp: beyond5_def dest: calculateDistance_self split: option.splits)

section \<open>Readings of a group stay near its anchor\<close>

lemma near_anchor_push:
  "push_to_first_group r gs = Some gs' \<Longrightarrow> \<forall>g \<in> set gs. near_anchor g \<Longrightarrow>
   \<forall>g \<in> set gs'. near_anchor g"
proof (induction gs arbitrary: gs')
  case Nil
  then show ?case by simp
next
  case (Cons g gs)
  show ?case
  proof (cases "within_threshold r g")
    case True
    then have "gs' = g\<lparr>readings := readings g @ [r]\<rparr> # gs"
      using Cons.prems(1) by simp
    moreover have "near_anchor (g\<lparr>readings := readings g @ [r]\<rparr>)"
      using True Cons.prems(2)
      by (auto simp: near_anchor_def within_threshold_anchor anchor_def)
    ultimately show ?thesis using Cons.prems(2) by simp
  next
    case False
    then obtain gs'' where "push_to_first_group r gs = Some gs''" "gs' = g # gs''"
      using Cons.prems(1) by auto
    then show ?thesis using Cons.IH [of gs''] Cons.prems(2) by simp
  qed
qed

lemma near_anchor_place:
  assumes "\<forall>g \<in> set gs. near_anchor g"
  shows "\<forall>g \<in> set (place_reading gs r). near_anchor g"
proof (cases "push_to_first_group r gs")
  case None
  then show ?thesis
    using assms by (auto simp: place_reading_def near_anchor_def anchor_def)
next
  case (Some gs')
  then show ?thesis
    using near_anchor_push [OF Some assms] by (simp add: place_reading_def)
qed

lemma near_anchor_foldl:
  "\<forall>g \<in> set gs. near_anchor g \<Longrightarrow> \<forall>g \<in> set (foldl place_reading gs rs). near_anchor g"
proof (induction rs arbitrary: gs)
  case Nil
  then show ?case by simp
next
  case (Cons r rs)
  show ?case
    using Cons.IH [OF near_anchor_place [OF Cons.prems]] by simp
qed

lemma near_anchor_groups:
  assumes "g \<in> set (groupLocationsByProximity pf rs)"
  shows "near_anchor g"
proof -
  have "\<forall>g \<in> set (all_groups (filterValidReadings pf rs)). near_anchor g"
    unfolding all_groups_def by (rule near_anchor_foldl) simp
  moreover have "g \<in> set (all_groups (filterValidReadings pf rs))"
    using assms unfolding groupLocationsByProximity_def by (rule in_set_takeD)
  ultimately show ?thesis by blast
qed

lemma within5_haversine:
  assumes "within5 (la1, lo1) (la2, lo2)"
  shows "\<exists>a1 o1 a2 o2. to_number la1 = Some a1 \<and> to_number lo1 = Some o1 \<and>
      to_number la2 = Some a2 \<and> to_number lo2 = Some o2 \<and> haversine a1 o1 a2 o2 \<le> 5"
  using assms by (auto simp: within5_def calculateDistance_Some split: option.splits)

lemma same_group_close:
  assumes "near_anchor g" "r \<in> set (readings g)" "r' \<in> set (readings g)"
    and "calculateDistance (latitude r) (longitude r) (latitude r') (longitude r') = Some d"
  shows "d \<le> 12"
proof -
  obtain a1 o1 a2 o2 where n: "to_number (latitude r) = Some a1" "to_number (longitude r) = Some o1"
      "to_number (latitude r') = Some a2" "to_number (longitude r') = Some o2"
      and d: "d = haversine a1 o1 a2 o2"
    using assms(4) by (auto simp: calculateDistance_Some)
  have r: "anchor r = anchor g \<or> within5 (anchor r) (anchor g)"
    using assms(1,2) by (simp add: near_anchor_def)
  have r': "anchor r' = anchor g \<or> within5 (anchor r') (anchor g)"
    using assms(1,3) by (simp add: near_anchor_def)
  consider (same) "anchor r = anchor g" "anchor r' = anchor g"
    | (left) "anchor r = anchor g" "within5 (anchor r') (anchor g)"
    | (right) "within5 (anchor r) (anchor g)" "anchor r' = anchor g"
    | (both) "within5 (anchor r) (anchor g)" "within5 (anchor r') (anchor g)"
    using r r' by blast
  then show ?thesis
  proof cases
    case same
    then have "a1 = a2" "o1 = o2" using n by (auto simp: anchor_def)
    then show ?thesis using d by (simp add: haversine_self)
  next
    case left
    then have "within5 (latitude r', longitude r') (latitude r, longitude r)"
      by (simp add: anchor_def)
    then have "haversine a2 o2 a1 o1 \<le> 5"
      using n by (auto dest!: within5_haversine)
    then show ?thesis using d by (simp add: haversine_sym [of a1 o1])
  next
    case right
    then have "within5 (latitude r, longitude r) (latitude r', longitude r')"
      by (simp add: anchor_def)
    then have "haversine a1 o1 a2 o2 \<le> 5"
      using n by (auto dest!: within5_haversine)
    then show ?thesis using d by simp
  next
    case both
    obtain a0 o0 where "haversine a1 o1 a0 o0 \<le> 5" "haversine a2 o2 a0 o0 \<le> 5"
      using both n by (auto simp: anchor_def dest!: within5_haversine)
    then show ?thesis using d haversine_both_close by blast
  qed
qed

lemma apart_inv_nth:
  assumes "apart_inv (map anchor gs)" "i < length gs" "j < length gs" "i \<noteq> j"
  shows "\<exists>d. calculateDistance (latitude (gs ! i)) (longitude (gs ! i))
           (latitude (gs ! j)) (longitude (gs ! j)) = Some d \<and> 5 < d"
proof -
  have s: "sorted_wrt (\<lambda>p q. beyond5 q p) (map anchor gs)"
    using assms(1) by (simp add: apart_inv_def)
  have "beyond5 (anchor (gs ! i)) (anchor (gs ! j))"
  proof (cases "i < j")
    case True
    then have "beyond5 (map anchor gs ! j) (map anchor gs ! i)"
      using s assms(3) by (simp add: sorted_wrt_iff_nth_less)
    then show ?thesis using assms(2,3) by (simp add: beyond5_sym [of "anchor (gs ! j)"])
  next
    case False
    then have "j < i" using assms(4) by simp
    then have "beyond5 (map anchor gs ! i) (map anchor gs ! j)"
      using s assms(2) by (simp add: sorted_wrt_iff_nth_less)
    then show ?thesis using assms(2,3) by simp
  qed
  then show ?thesis
    by (auto simp: beyond5_def anchor_def split: option.splits)
qed

section \<open>Distances along a meridian\<close>

lemma calculateDistance_meridian:
  assumes "\<bar>b - a\<bar> \<le> 180"
  shows "calculateDistance (Num a) (Num lo) (Num b) (Num lo) =
     Some (6371000 * (\<bar>b - a\<bar> * pi / 180))"
  by (simp add: calculateDistance_def haversine_meridian [OF assms])

lemma meridian_beyond:
  assumes "1 / 20000 \<le> \<bar>b - a\<bar>" "\<bar>b - a\<bar> \<le> 180"
  shows "5 < 6371000 * (\<bar>b - a\<bar> * pi / 180)"
proof -
  define x where "x = \<bar>b - a\<bar> * pi"
  have "1 / 20000 * 3 \<le> x"
    unfolding x_def using assms(1) pi_ge_3 by (intro mult_mono) simp_all
  then have "5 < 6371000 * (x / 180)" by simp
  then show ?thesis unfolding x_def .
qed

lemma meridian_within:
  assumes "\<bar>b - a\<bar> \<le> 3 / 100000"
  shows "6371000 * (\<bar>b - a\<bar> * pi / 180) < 5"
proof -
  define x where "x = \<bar>b - a\<bar> * pi"
  have "x \<le> 3 / 100000 * 4"
    unfolding x_def using assms pi_less_4 by (intro mult_mono) simp_all
  then have "6371000 * (x / 180) < 5" by simp
  then show ?thesis unfolding x_def .
qed

lemma beyond5_meridian:
  "1 / 20000 \<le> \<bar>b - a\<bar> \<Longrightarrow> \<bar>b - a\<bar> \<le> 180 \<Longrightarrow> beyond5 (Num a, Num lo) (Num b, Num lo)"
  using meridian_beyond [of b a] by (simp add: beyond5_def calculateDistance_meridian)

lemma within5_meridian:
  "\<bar>b - a\<bar> \<le> 3 / 100000 \<Longrightarrow> within5 (Num a, Num lo) (Num b, Num lo)"
  using meridian_within [of b a] by (simp add: within5_def calculateDistance_meridian)

lemma anchor_meridian_reading: "anchor (meridian_reading a t) = (Num a, Num 79.9)"
  by (simp add: anchor_def meridian_reading_def sample_reading_sel)

lemma timestamp_meridian_reading: "timestamp (meridian_reading a t) = TsNumber t"
  by (simp add: meridian_reading_def sample_reading_sel)

lemma length_groups_le_5: "length (groupLocationsByProximity pf rs) \<le> 5"
  by (simp add: groupLocationsByProximity_def)

lemma beyond5_anchor_iff:
  "beyond5 (anchor b) (anchor a) \<longleftrightarrow>
   (\<exists>d. calculateDistance (latitude b) (longitude b) (latitude a) (longitude a) = Some d \<and> 5 < d)"
  by (auto simp: beyond5_def anchor_def split: option.splits)

lemma stamped_not_in_other_group:
  assumes "beyond5 (anchor b) (anchor a)"
  shows "b\<lparr>validTimestamp := v\<rparr> \<notin> set (readings (group_of (stamp pf a)))"
proof
  assume "b\<lparr>validTimestamp := v\<rparr> \<in> set (readings (group_of (stamp pf a)))"
  then have "b\<lparr>validTimestamp := v\<rparr> = stamp pf a"
    by (simp add: group_of_def)
  then have "anchor (b\<lparr>validTimestamp := v\<rparr>) = anchor (stamp pf a)" by simp
  then have "anchor b = anchor a"
    by (simp add: anchor_def stamp_def)
  with assms show False by (simp add: beyond5_irrefl)
qed

section \<open>The sample batches\<close>

lemma utc_year_scattered:
  "utc_year 1760000001000 = 2025" "utc_year 1760000002000 = 2025"
  "utc_year 1760000003000 = 2025" "utc_year 1760000004000 = 2025"
  "utc_year 1760000005000 = 2025" "utc_year 1760000006000 = 2025"
  "utc_year 1760000007000 = 2025"
  by code_simp+

lemma validateTimestamp_scattered:
  "validateTimestamp utc_platform (TsNumber 1760000001000) = Some 1760000001000"
  "validateTimestamp utc_platform (TsNumber 1760000002000) = Some 1760000002000"
  "validateTimestamp utc_platform (TsNumber 1760000003000) = Some 1760000003000"
  "validateTimestamp utc_platform (TsNumber 1760000004000) = Some 1760000004000"
  "validateTimestamp utc_platform (TsNumber 1760000005000) = Some 1760000005000"
  "validateTimestamp utc_platform (TsNumber 1760000006000) = Some 1760000006000"
  "validateTimestamp utc_platform (TsNumber 1760000007000) = Some 1760000007000"
  by (simp_all add: validateTimestamp_def utc_platform_def TimeClip_def utc_year_scattered)

lemma seven_scattered_valid:
  "\<forall>r \<in> set seven_scattered. validateTimestamp utc_platform (timestamp r) \<noteq> None"
  by (simp add: seven_scattered_def timestamp_meridian_reading validateTimestamp_scattered)

lemma seven_scattered_recent_first:
  "sorted_wrt (\<lambda>a b. \<exists>s t. validateTimestamp utc_platform (timestamp a) = Some s \<and>
        validateTimestamp utc_platform (timestamp b) = Some t \<and> t \<le> s) seven_scattered"
  by (simp add: seven_scattered_def timestamp_meridian_reading validateTimestamp_scattered)

lemma seven_scattered_beyond:
  "sorted_wrt (\<lambda>a b. beyond5 (anchor b) (anchor a)) seven_scattered"
  by (simp add: seven_scattered_def anchor_meridian_reading beyond5_meridian)

lemma groups_seven_scattered:
  "groupLocationsByProximity utc_platform seven_scattered =
     map (\<lambda>r. group_of (stamp utc_platform r)) (take 5 seven_scattered)"
  by (intro groups_of_scattered seven_scattered_valid seven_scattered_recent_first
      seven_scattered_beyond)

lemma numeric_meridian_reading:
  "to_number (latitude (meridian_reading a t)) \<noteq> None"
  "to_number (longitude (meridian_reading a t)) \<noteq> None"
  by (simp_all add: meridian_reading_def sample_reading_sel del: not_None_eq)

lemma within_threshold_great_circle:
  "within_threshold r g \<longleftrightarrow>
   (\<exists>a1 o1 a2 o2. to_number (latitude r) = Some a1 \<and> to_number (longitude r) = Some o1 \<and>
      to_number (latitude g) = Some a2 \<and> to_number (longitude g) = Some o2 \<and>
      6371000 * (2 * arcsin (sqrt (hav a1 o1 a2 o2))) \<le> 5)"
  by (auto simp: within_threshold_def calculateDistance_def haversine_arcsin
      split: option.splits)

lemma groups_of_two:
  assumes "filterValidReadings pf rs = [a, b]"
  shows "groupLocationsByProximity pf rs =
     (if within_threshold b (group_of a)
      then [\<lparr>latitude = latitude a, longitude = longitude a, readings = [a, b]\<rparr>]
      else [group_of a, group_of b])"
  by (simp add: groupLocationsByProximity_def all_groups_def assms place_reading_def group_of_def)

lemma same_group_below_50:
  assumes "g \<in> set (groupLocationsByProximity pf rs)" "r \<in> set (readings g)"
    "r' \<in> set (readings g)"
    "calculateDistance (latitude r) (longitude r) (latitude r') (longitude r') = Some d"
  shows "d < 50"
  using same_group_close [OF near_anchor_groups [OF assms(1)] assms(2,3,4)] by simp

section \<open>Three readings on a line\<close>

lemma validateTimestamp_near:
  "validateTimestamp utc_platform (timestamp near_A) = Some 1760000003000"
  "validateTimestamp utc_platform (timestamp near_B) = Some 1760000002000"
  "validateTimestamp utc_platform (timestamp near_C) = Some 1760000001000"
  by (simp_all add: near_A_def near_B_def near_C_def timestamp_meridian_reading
      validateTimestamp_scattered)

lemma filterValidReadings_three_near:
  "filterValidReadings utc_platform three_near =
     [near_A\<lparr>validTimestamp := Some 1760000003000\<rparr>,
      near_B\<lparr>validTimestamp := Some 1760000002000\<rparr>,
      near_C\<lparr>validTimestamp := Some 1760000001000\<rparr>]"
  by (simp add: filterValidReadings_def three_near_def validateTimestamp_near
      by_recency_def getTime_def)

lemma filterValidReadings_two_near:
  "filterValidReadings utc_platform two_near =
     [near_A\<lparr>validTimestamp := Some 1760000003000\<rparr>,
      near_C\<lparr>validTimestamp := Some 1760000001000\<rparr>]"
  by (simp add: filterValidReadings_def two_near_def validateTimestamp_near
      by_recency_def getTime_def)

lemma within_threshold_literal:
  "within_threshold (r\<lparr>validTimestamp := v\<rparr>)
     \<lparr>latitude = latitude a, longitude = longitude a, readings = rs\<rparr> =
   within5 (anchor r) (anchor a)"
  by (simp add: within_threshold_anchor anchor_def)

lemma near_far_samples:
  "\<not> within5 (anchor near_B) (anchor near_A)"
  "within5 (anchor near_C) (anchor near_A)"
  "within5 (anchor near_C) (anchor near_B)"
  by (simp_all add: near_A_def near_B_def near_C_def anchor_meridian_reading
      beyond5_not_within5 beyond5_meridian within5_meridian)

lemma groups_three_near:
  "groupLocationsByProximity utc_platform three_near =
     [\<lparr>latitude = latitude near_A, longitude = longitude near_A,
       readings =
         [near_A\<lparr>validTimestamp := Some 1760000003000\<rparr>,
          near_C\<lparr>validTimestamp := Some 1760000001000\<rparr>]\<rparr>,
      \<lparr>latitude = latitude near_B, longitude = longitude near_B,
       readings = [near_B\<lparr>validTimestamp := Some 1760000002000\<rparr>]\<rparr>]"
  by (simp add: groupLocationsByProximity_def all_groups_def filterValidReadings_three_near
      place_reading_def within_threshold_literal near_far_samples)

lemma distance_below_samples: "distance_below 5 near_B near_C"
proof -
  have "\<bar>6.790025 - 6.79005\<bar> \<le> (3 / 100000 :: real)" by simp
  then show ?thesis
    using meridian_within [of "6.790025" "6.79005"]
    by (simp add: distance_below_def near_B_def near_C_def meridian_reading_def
        sample_reading_sel calculateDistance_meridian)
qed

lemma groups_two_near:
  "groupLocationsByProximity utc_platform two_near =
     [\<lparr>latitude = latitude near_A, longitude = longitude near_A,
       readings =
         [near_A\<lparr>validTimestamp := Some 1760000003000\<rparr>,
          near_C\<lparr>validTimestamp := Some 1760000001000\<rparr>]\<rparr>]"
  by (simp add: groupLocationsByProximity_def all_groups_def filterValidReadings_two_near
      place_reading_def within_threshold_literal near_far_samples)

lemma distance_near_A_C:
  "\<exists>d. calculateDistance (latitude near_A) (longitude near_A)
          (latitude near_C) (longitude near_C) = Some d"
  by (simp add: near_A_def near_C_def meridian_reading_def sample_reading_sel
      calculateDistance_def)

text \<open>
  Claim C6 as stated fails in its last part: two readings less than 5 m apart can end up
  in different groups. With the readings A, B, C in recency order, B founds a second
  group (it is more than 5 m from A), and C, which is less than 5 m from B, joins the
  group of A, the first anchor within 5 m of it.
\<close>

theorem near_readings_split_counterexample:
  "distance_below 5 near_B near_C \<and>
   groupLocationsByProximity utc_platform [near_A, near_B, near_C] =
     [\<lparr>latitude = latitude near_A, longitude = longitude near_A,
       readings =
         [near_A\<lparr>validTimestamp := Some 1760000003000\<rparr>,
          near_C\<lparr>validTimestamp := Some 1760000001000\<rparr>]\<rparr>,
      \<lparr>latitude = latitude near_B, longitude = longitude near_B,
       readings = [near_B\<lparr>validTimestamp := Some 1760000002000\<rparr>]\<rparr>]"
  using distance_below_samples groups_three_near unfolding three_near_def by (rule conjI)

text \<open>
  Claim C6 (as amended). The grouper scans the valid readings in order. A reading is added
  to the first group, in creation order, whose anchor is within 5 m of it, and founds a
  new group anchored at its own position when no anchor is within 5 m. The distance is
  the great-circle distance \<open>2 R arcsin (sqrt a)\<close> with \<open>R\<close> = 6371000 m, \<open>a\<close> the
  haversine term. The result is the first five groups. Anchors never change: the anchors
  before a run of the loop are a prefix of the anchors after it. In particular, when the
  input has two valid readings, they form one group exactly when the older one is within
  5 m of the more recent one; and two readings of one group are less than 50 m apart, so
  readings 50 m or more apart are never in the same group.
\<close>

theorem grouping_by_first_anchor:
  "(i < length gs \<and> within_threshold r (gs ! i) \<and> (\<forall>k<i. \<not> within_threshold r (gs ! k)) \<longrightarrow>
      place_reading gs r = gs[i := (gs ! i)\<lparr>readings := readings (gs ! i) @ [r]\<rparr>]) \<and>
   ((\<forall>g \<in> set gs. \<not> within_threshold r g) \<longrightarrow>
      place_reading gs r =
        gs @ [\<lparr>latitude = latitude r, longitude = longitude r, readings = [r]\<rparr>]) \<and>
   (within_threshold r g \<longleftrightarrow>
      (\<exists>a1 o1 a2 o2. to_number (latitude r) = Some a1 \<and> to_number (longitude r) = Some o1 \<and>
         to_number (latitude g) = Some a2 \<and> to_number (longitude g) = Some o2 \<and>
         6371000 * (2 * arcsin (sqrt (hav a1 o1 a2 o2))) \<le> 5)) \<and>
   groupLocationsByProximity pf rs =
     take 5 (foldl place_reading [] (filterValidReadings pf rs)) \<and>
   (\<exists>new. map (\<lambda>g. (latitude g, longitude g)) (foldl place_reading gs rs) =
      map (\<lambda>g. (latitude g, longitude g)) gs @ new) \<and>
   (filterValidReadings pf rs = [a, b] \<longrightarrow>
      groupLocationsByProximity pf rs =
        (if within_threshold b (group_of a)
         then [\<lparr>latitude = latitude a, longitude = longitude a, readings = [a, b]\<rparr>]
         else [group_of a, group_of b])) \<and>
   (\<forall>g \<in> set (groupLocationsByProximity pf rs).
      \<forall>r \<in> set (readings g). \<forall>r' \<in> set (readings g). \<forall>d.
        calculateDistance (latitude r) (longitude r) (latitude r') (longitude r') = Some d \<longrightarrow>
        d < 50)"
proof -
  have a: "i < length gs \<and> within_threshold r (gs ! i) \<and> (\<forall>k<i. \<not> within_threshold r (gs ! k)) \<longrightarrow>
      place_reading gs r = gs[i := (gs ! i)\<lparr>readings := readings (gs ! i) @ [r]\<rparr>]"
    using place_reading_found by blast
  have b: "(\<forall>g \<in> set gs. \<not> within_threshold r g) \<longrightarrow>
      place_reading gs r =
        gs @ [\<lparr>latitude = latitude r, longitude = longitude r, readings = [r]\<rparr>]"
    using place_reading_new [of gs r] by (simp add: group_of_def)
  have d: "groupLocationsByProximity pf rs =
     take 5 (foldl place_reading [] (filterValidReadings pf rs))"
    by (simp add: groupLocationsByProximity_def all_groups_def)
  have e: "\<exists>new. map (\<lambda>g. (latitude g, longitude g)) (foldl place_reading gs rs) =
      map (\<lambda>g. (latitude g, longitude g)) gs @ new"
    using anchors_foldl_prefix [of gs rs] unfolding anchor_def .
  have f: "filterValidReadings pf rs = [a, b] \<longrightarrow>
      groupLocationsByProximity pf rs =
        (if within_threshold b (group_of a)
         then [\<lparr>latitude = latitude a, longitude = longitude a, readings = [a, b]\<rparr>]
         else [group_of a, group_of b])"
    using groups_of_two by blast
  have g: "\<forall>g \<in> set (groupLocationsByProximity pf rs).
      \<forall>r \<in> set (readings g). \<forall>r' \<in> set (readings g). \<forall>d.
        calculateDistance (latitude r) (longitude r) (latitude r') (longitude r') = Some d \<longrightarrow>
        d < 50"
    using same_group_below_50 by blast
  show ?thesis
    using a b within_threshold_great_circle [of r g] d e f g by blast
qed

theorem grouping_by_first_anchor_witness:
  "within_threshold (near_C\<lparr>validTimestamp := Some 1760000001000\<rparr>)
     \<lparr>latitude = latitude near_A, longitude = longitude near_A,
      readings = [near_A\<lparr>validTimestamp := Some 1760000003000\<rparr>]\<rparr> \<and>
   place_reading
     [\<lparr>latitude = latitude near_A, longitude = longitude near_A,
       readings = [near_A\<lparr>validTimestamp := Some 1760000003000\<rparr>]\<rparr>,
      \<lparr>latitude = latitude near_B, longitude = longitude near_B,
       readings = [near_B\<lparr>validTimestamp := Some 1760000002000\<rparr>]\<rparr>]
     (near_C\<lparr>validTimestamp := Some 1760000001000\<rparr>) =
     [\<lparr>latitude = latitude near_A, longitude = longitude near_A,
       readings = [near_A\<lparr>validTimestamp := Some 1760000003000\<rparr>,
                   near_C\<lparr>validTimestamp := Some 1760000001000\<rparr>]\<rparr>,
      \<lparr>latitude = latitude near_B, longitude = longitude near_B,
       readings = [near_B\<lparr>validTimestamp := Some 1760000002000\<rparr>]\<rparr>] \<and>
   \<not> within_threshold (near_B\<lparr>validTimestamp := Some 1760000002000\<rparr>)
     \<lparr>latitude = latitude near_A, longitude = longitude near_A,
      readings = [near_A\<lparr>validTimestamp := Some 1760000003000\<rparr>]\<rparr> \<and>
   place_reading
     [\<lparr>latitude = latitude near_A, longitude = longitude near_A,
       readings = [near_A\<lparr>validTimestamp := Some 1760000003000\<rparr>]\<rparr>]
     (near_B\<lparr>validTimestamp := Some 1760000002000\<rparr>) =
     [\<lparr>latitude = latitude near_A, longitude = longitude near_A,
       readings = [near_A\<lparr>validTimestamp := Some 1760000003000\<rparr>]\<rparr>,
      \<lparr>latitude = latitude near_B, longitude = longitude near_B,
       readings = [near_B\<lparr>validTimestamp := Some 1760000002000\<rparr>]\<rparr>] \<and>
   filterValidReadings utc_platform two_near =
     [near_A\<lparr>validTimestamp := Some 1760000003000\<rparr>,
      near_C\<lparr>validTimestamp := Some 1760000001000\<rparr>] \<and>
   groupLocationsByProximity utc_platform two_near =
     [\<lparr>latitude = latitude near_A, longitude = longitude near_A,
       readings =
         [near_A\<lparr>validTimestamp := Some 1760000003000\<rparr>,
          near_C\<lparr>validTimestamp := Some 1760000001000\<rparr>]\<rparr>] \<and>
   (\<exists>d. calculateDistance (latitude near_A) (longitude near_A)
          (latitude near_C) (longitude near_C) = Some d \<and> d < 50)"
proof -
  let ?A = "near_A\<lparr>validTimestamp := Some 1760000003000\<rparr>"
  let ?B = "near_B\<lparr>validTimestamp := Some 1760000002000\<rparr>"
  let ?C = "near_C\<lparr>validTimestamp := Some 1760000001000\<rparr>"
  let ?gA = "\<lparr>latitude = latitude near_A, longitude = longitude near_A, readings = [?A]\<rparr>"
  let ?gB = "\<lparr>latitude = latitude near_B, longitude = longitude near_B, readings = [?B]\<rparr>"
  have wC: "within_threshold ?C ?gA"
    by (simp add: within_threshold_literal near_far_samples)
  have wB: "\<not> within_threshold ?B ?gA"
    by (simp add: within_threshold_literal near_far_samples)
  have found: "place_reading [?gA, ?gB] ?C = [?gA\<lparr>readings := [?A, ?C]\<rparr>, ?gB]"
    using grouping_by_first_anchor [where i = 0 and gs = "[?gA, ?gB]" and r = ?C] wC by simp
  have new: "place_reading [?gA] ?B = [?gA, ?gB]"
    using grouping_by_first_anchor [where gs = "[?gA]" and r = ?B] wB by simp
  note two = grouping_by_first_anchor [where pf = utc_platform and rs = two_near
      and a = ?A and b = ?C]
  have f: "filterValidReadings utc_platform two_near = [?A, ?C] \<longrightarrow>
      groupLocationsByProximity utc_platform two_near =
        (if within_threshold ?C (group_of ?A)
         then [\<lparr>latitude = latitude ?A, longitude = longitude ?A, readings = [?A, ?C]\<rparr>]
         else [group_of ?A, group_of ?C])"
    using two by blast
  have wC': "within_threshold ?C (group_of ?A)"
    by (simp add: group_of_def within_threshold_literal near_far_samples)
  have grp: "groupLocationsByProximity utc_platform two_near = [?gA\<lparr>readings := [?A, ?C]\<rparr>]"
    using f filterValidReadings_two_near wC' by simp
  obtain d where d: "calculateDistance (latitude ?A) (longitude ?A)
      (latitude ?C) (longitude ?C) = Some d"
    using distance_near_A_C by auto
  have "\<forall>g \<in> set (groupLocationsByProximity utc_platform two_near).
      \<forall>r \<in> set (readings g). \<forall>r' \<in> set (readings g). \<forall>d.
        calculateDistance (latitude r) (longitude r) (latitude r') (longitude r') = Some d \<longrightarrow>
        d < 50"
    using two by blast
  then have "d < 50"
    using d unfolding grp by simp
  with d have "\<exists>d. calculateDistance (latitude near_A) (longitude near_A)
          (latitude near_C) (longitude near_C) = Some d \<and> d < 50"
    by auto
  then show ?thesis
    using wC wB found new grp filterValidReadings_two_near by simp
qed

text \<open>
  Claim C7. \<open>groupLocationsByProximity\<close> returns at most 5 groups, the first 5 in
  creation order. Given 7 valid readings in descending time order, no two within 5 m of
  each other, it returns exactly 5 groups of exactly 1 reading each, the groups of the 5
  most recent readings in that order; the 2 oldest readings are in no group.
\<close>

theorem at_most_five_groups:
  "length (groupLocationsByProximity pf rs) \<le> 5 \<and>
   groupLocationsByProximity pf rs = take 5 (all_groups (filterValidReadings pf rs)) \<and>
   (length rs = 7 \<and>
    (\<forall>r \<in> set rs. validateTimestamp pf (timestamp r) \<noteq> None) \<and>
    sorted_wrt (\<lambda>a b. \<exists>s t. validateTimestamp pf (timestamp a) = Some s \<and>
        validateTimestamp pf (timestamp b) = Some t \<and> t \<le> s) rs \<and>
    sorted_wrt (\<lambda>a b. \<exists>d. calculateDistance (latitude b) (longitude b)
        (latitude a) (longitude a) = Some d \<and> 5 < d) rs \<longrightarrow>
    groupLocationsByProximity pf rs =
      map (\<lambda>r. \<lparr>latitude = latitude r, longitude = longitude r,
                 readings = [r\<lparr>validTimestamp := validateTimestamp pf (timestamp r)\<rparr>]\<rparr>)
        (take 5 rs) \<and>
    length (groupLocationsByProximity pf rs) = 5 \<and>
    (\<forall>g \<in> set (groupLocationsByProximity pf rs). length (readings g) = 1) \<and>
    (\<forall>g \<in> set (groupLocationsByProximity pf rs). \<forall>v.
        (rs ! 5)\<lparr>validTimestamp := v\<rparr> \<notin> set (readings g) \<and>
        (rs ! 6)\<lparr>validTimestamp := v\<rparr> \<notin> set (readings g)))"
proof (intro conjI impI)
  show "length (groupLocationsByProximity pf rs) \<le> 5"
    by (rule length_groups_le_5)
next
  show "groupLocationsByProximity pf rs = take 5 (all_groups (filterValidReadings pf rs))"
    by (rule groupLocationsByProximity_def)
next
  assume h: "length rs = 7 \<and>
    (\<forall>r \<in> set rs. validateTimestamp pf (timestamp r) \<noteq> None) \<and>
    sorted_wrt (\<lambda>a b. \<exists>s t. validateTimestamp pf (timestamp a) = Some s \<and>
        validateTimestamp pf (timestamp b) = Some t \<and> t \<le> s) rs \<and>
    sorted_wrt (\<lambda>a b. \<exists>d. calculateDistance (latitude b) (longitude b)
        (latitude a) (longitude a) = Some d \<and> 5 < d) rs"
  then have len: "length rs = 7" by simp
  from h have far: "sorted_wrt (\<lambda>a b. beyond5 (anchor b) (anchor a)) rs"
    by (simp add: beyond5_anchor_iff)
  from h far have eq: "groupLocationsByProximity pf rs =
      map (\<lambda>r. group_of (stamp pf r)) (take 5 rs)"
    by (intro groups_of_scattered) simp_all
  show "groupLocationsByProximity pf rs =
      map (\<lambda>r. \<lparr>latitude = latitude r, longitude = longitude r,
                 readings = [r\<lparr>validTimestamp := validateTimestamp pf (timestamp r)\<rparr>]\<rparr>)
        (take 5 rs)"
    unfolding eq by (simp add: group_of_def stamp_def)
  show "length (groupLocationsByProximity pf rs) = 5"
    unfolding eq using len by simp
  show "\<forall>g \<in> set (groupLocationsByProximity pf rs). length (readings g) = 1"
    unfolding eq by (auto simp: group_of_def)
  show "\<forall>g \<in> set (groupLocationsByProximity pf rs). \<forall>v.
        (rs ! 5)\<lparr>validTimestamp := v\<rparr> \<notin> set (readings g) \<and>
        (rs ! 6)\<lparr>validTimestamp := v\<rparr> \<notin> set (readings g)"
  proof (intro ballI allI)
    fix g v
    assume "g \<in> set (groupLocationsByProximity pf rs)"
    then obtain r where "r \<in> set (take 5 rs)" and g: "g = group_of (stamp pf r)"
      unfolding eq by auto
    then obtain i where i: "i < 5" "r = rs ! i"
      using len by (auto simp: in_set_conv_nth)
    have "beyond5 (anchor (rs ! 5)) (anchor (rs ! i))" "beyond5 (anchor (rs ! 6)) (anchor (rs ! i))"
      using far i(1) len by (simp_all add: sorted_wrt_iff_nth_less)
    then show "(rs ! 5)\<lparr>validTimestamp := v\<rparr> \<notin> set (readings g) \<and>
        (rs ! 6)\<lparr>validTimestamp := v\<rparr> \<notin> set (readings g)"
      unfolding g i(2) by (simp only: stamped_not_in_other_group simp_thms)
  qed
qed

theorem at_most_five_groups_witness:
  "length seven_scattered = 7 \<and>
   list_all (\<lambda>r. validateTimestamp utc_platform (timestamp r) \<noteq> None) seven_scattered \<and>
   sorted_wrt (\<lambda>a b. \<exists>s t. validateTimestamp utc_platform (timestamp a) = Some s \<and>
        validateTimestamp utc_platform (timestamp b) = Some t \<and> t \<le> s) seven_scattered \<and>
   sorted_wrt (\<lambda>a b. \<exists>d. calculateDistance (latitude b) (longitude b)
        (latitude a) (longitude a) = Some d \<and> 5 < d) seven_scattered \<and>
   length (groupLocationsByProximity utc_platform seven_scattered) = 5 \<and>
   map readings (groupLocationsByProximity utc_platform seven_scattered) =
     [[(meridian_reading 6.7 1760000007000)\<lparr>validTimestamp := Some 1760000007000\<rparr>],
      [(meridian_reading 6.6 1760000006000)\<lparr>validTimestamp := Some 1760000006000\<rparr>],
      [(meridian_reading 6.5 1760000005000)\<lparr>validTimestamp := Some 1760000005000\<rparr>],
      [(meridian_reading 6.4 1760000004000)\<lparr>validTimestamp := Some 1760000004000\<rparr>],
      [(meridian_reading 6.3 1760000003000)\<lparr>validTimestamp := Some 1760000003000\<rparr>]]"
proof -
  have len: "length seven_scattered = 7"
    by (simp add: seven_scattered_def)
  have far: "sorted_wrt (\<lambda>a b. \<exists>d. calculateDistance (latitude b) (longitude b)
        (latitude a) (longitude a) = Some d \<and> 5 < d) seven_scattered"
    using seven_scattered_beyond by (simp add: beyond5_anchor_iff)
  have "groupLocationsByProximity utc_platform seven_scattered =
      map (\<lambda>r. \<lparr>latitude = latitude r, longitude = longitude r,
                 readings = [r\<lparr>validTimestamp := validateTimestamp utc_platform (timestamp r)\<rparr>]\<rparr>)
        (take 5 seven_scattered) \<and>
    length (groupLocationsByProximity utc_platform seven_scattered) = 5"
    using at_most_five_groups [of utc_platform seven_scattered]
      len seven_scattered_valid seven_scattered_recent_first far by blast
  then show ?thesis
    using len seven_scattered_valid seven_scattered_recent_first far
    by (simp add: seven_scattered_def timestamp_meridian_reading validateTimestamp_scattered
        list_all_iff)
qed

lemma not_within_place:
  assumes "sorted_wrt (\<lambda>p q. \<not> within5 q p) (map anchor gs)"
  shows "sorted_wrt (\<lambda>p q. \<not> within5 q p) (map anchor (place_reading gs r))"
proof (cases "\<exists>g \<in> set gs. within_threshold r g")
  case True
  then show ?thesis using assms by (simp add: anchors_place_reading)
next
  case False
  then have "\<forall>g \<in> set gs. \<not> within5 (anchor r) (anchor g)"
    by (simp add: within_threshold_anchor)
  then show ?thesis
    using False assms by (auto simp: anchors_place_reading sorted_wrt_append)
qed

lemma not_within_foldl:
  assumes "sorted_wrt (\<lambda>p q. \<not> within5 q p) (map anchor gs)"
  shows "sorted_wrt (\<lambda>p q. \<not> within5 q p) (map anchor (foldl place_reading gs rs))"
  using assms
proof (induction rs arbitrary: gs)
  case Nil
  then show ?case by simp
next
  case (Cons r rs)
  then show ?case by (simp add: not_within_place)
qed

lemma not_within_groups:
  "sorted_wrt (\<lambda>p q. \<not> within5 q p) (map anchor (groupLocationsByProximity pf rs))"
proof -
  have "sorted_wrt (\<lambda>p q. \<not> within5 q p) (map anchor (all_groups (filterValidReadings pf rs)))"
    unfolding all_groups_def by (intro not_within_foldl) simp
  then have "sorted_wrt (\<lambda>p q. \<not> within5 q p)
      (take 5 (map anchor (all_groups (filterValidReadings pf rs))))"
    by (rule sorted_wrt_take)
  then show ?thesis
    by (simp add: groupLocationsByProximity_def take_map)
qed

lemma not_within_nth:
  assumes "sorted_wrt (\<lambda>p q. \<not> within5 q p) (map anchor gs)"
    "i < length gs" "j < length gs" "i \<noteq> j"
    "calculateDistance (latitude (gs ! i)) (longitude (gs ! i))
       (latitude (gs ! j)) (longitude (gs ! j)) = Some d"
  shows "5 < d"
proof -
  have "\<not> within5 (anchor (gs ! i)) (anchor (gs ! j))"
  proof (cases "i < j")
    case True
    then have "\<not> within5 (map anchor gs ! j) (map anchor gs ! i)"
      using assms(1,3) by (simp add: sorted_wrt_iff_nth_less)
    then show ?thesis using assms(2,3) by (simp add: within5_sym [of "anchor (gs ! j)"])
  next
    case False
    then have "j < i" using assms(4) by simp
    then have "\<not> within5 (map anchor gs ! i) (map anchor gs ! j)"
      using assms(1,2) by (simp add: sorted_wrt_iff_nth_less)
    then show ?thesis using assms(2,3) by simp
  qed
  then show ?thesis
    using assms(5) by (simp add: within5_def anchor_def)
qed

lemma filterValidReadings_unlocated_pair:
  "filterValidReadings utc_platform unlocated_pair =
     [(sample_reading (TsNumber 1760000002000) Undefined (Num 79.9))
         \<lparr>validTimestamp := Some 1760000002000\<rparr>,
      (sample_reading (TsNumber 1760000001000) Undefined (Num 79.9))
         \<lparr>validTimestamp := Some 1760000001000\<rparr>]"
  by (simp add: filterValidReadings_def unlocated_pair_def sample_reading_sel
      validateTimestamp_scattered by_recency_def getTime_def)

lemma not_within_threshold_undefined:
  "latitude r = Undefined \<Longrightarrow> \<not> within_threshold r g"
  by (simp add: within_threshold_def calculateDistance_def)

text \<open>
  Claim C10 as stated fails for readings without numeric coordinates: the distance to
  such a reading is \<open>NaN\<close>, the test \<open>distance <= 5\<close> is false, and every such reading
  founds a group. Two readings without latitude give two groups with the same anchor,
  whose distance is \<open>NaN\<close> and not more than 5 m.
\<close>

theorem group_anchors_apart_counterexample:
  "map (\<lambda>g. (latitude g, longitude g)) (groupLocationsByProximity utc_platform unlocated_pair) =
     [(Undefined, Num 79.9), (Undefined, Num 79.9)] \<and>
   calculateDistance Undefined (Num 79.9) Undefined (Num 79.9) = None"
  by (simp add: groupLocationsByProximity_def all_groups_def filterValidReadings_unlocated_pair
      place_reading_def not_within_threshold_undefined sample_reading_sel calculateDistance_def)

text \<open>
  Claim C10 (as amended). For every input list of readings, no two distinct groups
  returned by \<open>groupLocationsByProximity\<close> have anchors within 5 m of each other: whenever
  the distance of two anchors is a number, it is strictly more than 5 m. When the
  coordinates of all readings are numbers, the distance of any two distinct anchors is a
  number, and so strictly more than 5 m.
\<close>

theorem group_anchors_apart:
  "(\<forall>i j d. i < length (groupLocationsByProximity pf rs) \<and>
             j < length (groupLocationsByProximity pf rs) \<and> i \<noteq> j \<and>
             calculateDistance
               (latitude (groupLocationsByProximity pf rs ! i))
               (longitude (groupLocationsByProximity pf rs ! i))
               (latitude (groupLocationsByProximity pf rs ! j))
               (longitude (groupLocationsByProximity pf rs ! j)) = Some d \<longrightarrow>
           5 < d) \<and>
   ((\<forall>r \<in> set rs. to_number (latitude r) \<noteq> None \<and> to_number (longitude r) \<noteq> None) \<longrightarrow>
      (\<forall>i j. i < length (groupLocationsByProximity pf rs) \<and>
             j < length (groupLocationsByProximity pf rs) \<and> i \<noteq> j \<longrightarrow>
        (\<exists>d. calculateDistance
               (latitude (groupLocationsByProximity pf rs ! i))
               (longitude (groupLocationsByProximity pf rs ! i))
               (latitude (groupLocationsByProximity pf rs ! j))
               (longitude (groupLocationsByProximity pf rs ! j)) = Some d \<and> 5 < d)))"
proof (intro conjI impI allI)
  fix i j d
  assume "i < length (groupLocationsByProximity pf rs) \<and>
             j < length (groupLocationsByProximity pf rs) \<and> i \<noteq> j \<and>
             calculateDistance
               (latitude (groupLocationsByProximity pf rs ! i))
               (longitude (groupLocationsByProximity pf rs ! i))
               (latitude (groupLocationsByProximity pf rs ! j))
               (longitude (groupLocationsByProximity pf rs ! j)) = Some d"
  then show "5 < d"
    using not_within_nth [OF not_within_groups, of i pf rs j d] by simp
next
  fix i j
  assume num: "\<forall>r \<in> set rs. to_number (latitude r) \<noteq> None \<and> to_number (longitude r) \<noteq> None"
    and ij: "i < length (groupLocationsByProximity pf rs) \<and>
             j < length (groupLocationsByProximity pf rs) \<and> i \<noteq> j"
  from num have "\<forall>r \<in> set rs. numeric (anchor r)"
    by (simp add: numeric_def anchor_def)
  then have "apart_inv (map anchor (groupLocationsByProximity pf rs))"
    by (rule apart_inv_groups)
  then show "\<exists>d. calculateDistance
               (latitude (groupLocationsByProximity pf rs ! i))
               (longitude (groupLocationsByProximity pf rs ! i))
               (latitude (groupLocationsByProximity pf rs ! j))
               (longitude (groupLocationsByProximity pf rs ! j)) = Some d \<and> 5 < d"
    using ij by (intro apart_inv_nth) simp_all
qed

theorem group_anchors_apart_witness:
  "list_all (\<lambda>r. to_number (latitude r) \<noteq> None \<and> to_number (longitude r) \<noteq> None)
     seven_scattered \<and>
   length (groupLocationsByProximity utc_platform seven_scattered) = 5 \<and>
   (\<exists>d. calculateDistance
          (latitude (groupLocationsByProximity utc_platform seven_scattered ! 0))
          (longitude (groupLocationsByProximity utc_platform seven_scattered ! 0))
          (latitude (groupLocationsByProximity utc_platform seven_scattered ! 4))
          (longitude (groupLocationsByProximity utc_platform seven_scattered ! 4)) = Some d \<and>
        5 < d)"
proof -
  have num: "\<forall>r \<in> set seven_scattered.
      to_number (latitude r) \<noteq> None \<and> to_number (longitude r) \<noteq> None"
    by (simp add: seven_scattered_def numeric_meridian_reading del: not_None_eq)
  have len: "length (groupLocationsByProximity utc_platform seven_scattered) = 5"
    unfolding groups_seven_scattered by (simp add: seven_scattered_def)
  show ?thesis
    using group_anchors_apart [where rs = seven_scattered and pf = utc_platform] num len
    by (simp add: list_all_iff del: not_None_eq)
qed

end
